theory Spec2Isabelle
  imports Main
begin

section \<open>Account manager: the in-memory pool (accounts.js)\<close>

text \<open>
  The pool of \<^verbatim>\<open>AccountManager\<close> holds JavaScript objects that its methods mutate in
  place and hand out by reference. The model keeps that aliasing: an account object lives
  in a store under an address, the array \<^verbatim>\<open>accounts\<close> is a list of addresses, and
  \<^verbatim>\<open>indexOf\<close> compares addresses. \<^verbatim>\<open>nowMs()\<close> reads the field \<open>clock\<close>
  of the state (milliseconds, an integer); one method call sees one clock value.
  The cursor is a natural number: it starts at 0 or at a clamped non-negative integer and
  is only incremented, decremented when positive, or reduced modulo a positive length.
\<close>

datatype ModelFamily = Claude | Gemini

datatype HeaderStyle = Antigravity | GeminiCli

datatype QuotaKey = QClaude | QGeminiAntigravity | QGeminiCli

datatype SwitchReason = RateLimit | Initial | Rotation

record RefreshParts =
  refreshToken :: string
  projectId :: "string option"
  managedProjectId :: "string option"

record ManagedAccount =
  index :: int
  email :: "string option"
  addedAt :: int
  lastUsed :: int
  parts :: RefreshParts
  access :: "string option"
  expires :: "int option"
  rateLimitResetTimes :: "QuotaKey \<Rightarrow> int option"
  lastSwitchReason :: "SwitchReason option"

type_synonym ref = nat

record AccountManager =
  store :: "ref \<Rightarrow> ManagedAccount"
  accounts :: "ref list"
  cursor :: nat
  currentAccountIndexByFamily :: "ModelFamily \<Rightarrow> int"
  lastToastAccountIndex :: int
  lastToastTime :: int
  clock :: int

definition getQuotaKey :: "ModelFamily \<Rightarrow> HeaderStyle \<Rightarrow> QuotaKey" where
  "getQuotaKey family headerStyle =
     (if family = Claude then QClaude
      else if headerStyle = GeminiCli then QGeminiCli else QGeminiAntigravity)"

definition isRateLimitedForQuotaKey :: "int \<Rightarrow> ManagedAccount \<Rightarrow> QuotaKey \<Rightarrow> bool" where
  "isRateLimitedForQuotaKey now account key =
     (case rateLimitResetTimes account key of
        None \<Rightarrow> False
      | Some resetTime \<Rightarrow> now < resetTime)"

definition isRateLimitedForFamily :: "int \<Rightarrow> ManagedAccount \<Rightarrow> ModelFamily \<Rightarrow> bool" where
  "isRateLimitedForFamily now account family =
     (if family = Claude then isRateLimitedForQuotaKey now account QClaude
      else isRateLimitedForQuotaKey now account QGeminiAntigravity \<and>
           isRateLimitedForQuotaKey now account QGeminiCli)"

definition clearKey :: "int \<Rightarrow> ManagedAccount \<Rightarrow> QuotaKey \<Rightarrow> ManagedAccount" where
  "clearKey now account key =
     (case rateLimitResetTimes account key of
        None \<Rightarrow> account
      | Some t \<Rightarrow>
          if now \<ge> t
          then account\<lparr>rateLimitResetTimes := (rateLimitResetTimes account)(key := None)\<rparr>
          else account)"

definition clearExpiredRateLimits :: "int \<Rightarrow> ManagedAccount \<Rightarrow> ManagedAccount" where
  "clearExpiredRateLimits now account =
     foldl (clearKey now) account [QClaude, QGeminiAntigravity, QGeminiCli]"

text \<open>
  The callback of \<^verbatim>\<open>accounts.filter\<close> in \<^verbatim>\<open>getNextForFamily\<close> prunes each account in
  the store and then tests it; the loop returns the kept addresses and the store.
\<close>

fun filterAvailable ::
  "int \<Rightarrow> ModelFamily \<Rightarrow> ref list \<Rightarrow> (ref \<Rightarrow> ManagedAccount) \<Rightarrow>
   ref list \<times> (ref \<Rightarrow> ManagedAccount)" where
  "filterAvailable now family [] h = ([], h)"
| "filterAvailable now family (a # rest) h =
     (let h1 = h(a := clearExpiredRateLimits now (h a));
          keep = \<not> isRateLimitedForFamily now (h1 a) family;
          (available, h2) = filterAvailable now family rest h1
      in (if keep then a # available else available, h2))"

definition getCurrentAccountForFamily :: "AccountManager \<Rightarrow> ModelFamily \<Rightarrow> ref option" where
  "getCurrentAccountForFamily m family =
     (let currentIndex = currentAccountIndexByFamily m family
      in if currentIndex \<ge> 0 \<and> currentIndex < int (length (accounts m))
         then Some (accounts m ! nat currentIndex)
         else None)"

definition getNextForFamily :: "AccountManager \<Rightarrow> ModelFamily \<Rightarrow> ref option \<times> AccountManager" where
  "getNextForFamily m family =
     (let (available, h) = filterAvailable (clock m) family (accounts m) (store m);
          m1 = m\<lparr>store := h\<rparr>
      in if length available = 0 then (None, m1)
         else
           (let account = available ! (cursor m1 mod length available);
                m2 = m1\<lparr>cursor := cursor m1 + 1\<rparr>;
                m3 = m2\<lparr>store := (store m2)(account := (store m2 account)\<lparr>lastUsed := clock m2\<rparr>)\<rparr>
            in (Some account, m3)))"

definition getCurrentOrNextForFamily ::
  "AccountManager \<Rightarrow> ModelFamily \<Rightarrow> ref option \<times> AccountManager" where
  "getCurrentOrNextForFamily m family =
     (let tryNext = (\<lambda>m0.
            (case getNextForFamily m0 family of
               (None, m') \<Rightarrow> (None, m')
             | (Some next, m') \<Rightarrow>
                 (Some next,
                  m'\<lparr>currentAccountIndexByFamily :=
                       (currentAccountIndexByFamily m')(family := index (store m' next))\<rparr>)))
      in case getCurrentAccountForFamily m family of
           None \<Rightarrow> tryNext m
         | Some current \<Rightarrow>
             (let m1 = m\<lparr>store := (store m)(current := clearExpiredRateLimits (clock m) (store m current))\<rparr>
              in if \<not> isRateLimitedForFamily (clock m1) (store m1 current) family
                 then (Some current,
                       m1\<lparr>store := (store m1)(current := (store m1 current)\<lparr>lastUsed := clock m1\<rparr>)\<rparr>)
                 else tryNext m1))"

definition markRateLimited ::
  "AccountManager \<Rightarrow> ref \<Rightarrow> int \<Rightarrow> ModelFamily \<Rightarrow> HeaderStyle \<Rightarrow> AccountManager" where
  "markRateLimited m account retryAfterMs family headerStyle =
     (let key = getQuotaKey family headerStyle
      in m\<lparr>store := (store m)(account :=
            (store m account)\<lparr>rateLimitResetTimes :=
               (rateLimitResetTimes (store m account))(key := Some (clock m + retryAfterMs))\<rparr>)\<rparr>)"

subsection \<open>Pruning does not change who is rate-limited\<close>

lemma clearKey_other:
  "rateLimitResetTimes (clearKey now a k) k' =
     (if k' = k \<and> (\<exists>t. rateLimitResetTimes a k = Some t \<and> t \<le> now) then None
      else rateLimitResetTimes a k')"
  by (auto simp: clearKey_def split: option.splits)

lemma clearExpired_times:
  "rateLimitResetTimes (clearExpiredRateLimits now a) k =
     (case rateLimitResetTimes a k of
        None \<Rightarrow> None
      | Some t \<Rightarrow> if t \<le> now then None else Some t)"
  by (cases k) (auto simp: clearExpiredRateLimits_def clearKey_other split: option.splits)

lemma clearExpired_limited_key [simp]:
  "isRateLimitedForQuotaKey now (clearExpiredRateLimits now a) k = isRateLimitedForQuotaKey now a k"
  by (auto simp: isRateLimitedForQuotaKey_def clearExpired_times split: option.splits)

lemma clearExpired_limited [simp]:
  "isRateLimitedForFamily now (clearExpiredRateLimits now a) family = isRateLimitedForFamily now a family"
  by (simp add: isRateLimitedForFamily_def)

lemma filterAvailable_Cons:
  "filterAvailable now family (a # rest) h =
     (let h1 = h(a := clearExpiredRateLimits now (h a));
          r = filterAvailable now family rest h1
      in (if \<not> isRateLimitedForFamily now (h1 a) family then a # fst r else fst r, snd r))"
  by (simp add: Let_def case_prod_beta)

lemma filterAvailable_limited:
  "isRateLimitedForFamily now (snd (filterAvailable now family rs h) r) fam' =
   isRateLimitedForFamily now (h r) fam'"
proof (induction rs arbitrary: h)
  case Nil
  then show ?case by simp
next
  case (Cons a rs)
  show ?case
    by (simp only: filterAvailable_Cons Let_def snd_conv Cons.IH) simp
qed

lemma filterAvailable_fst:
  "fst (filterAvailable now family rs h) =
   filter (\<lambda>r. \<not> isRateLimitedForFamily now (h r) family) rs"
proof (induction rs arbitrary: h)
  case Nil
  then show ?case by simp
next
  case (Cons a rs)
  have "filter (\<lambda>r. \<not> isRateLimitedForFamily now ((h(a := clearExpiredRateLimits now (h a))) r) family) rs
      = filter (\<lambda>r. \<not> isRateLimitedForFamily now (h r) family) rs"
    by (rule filter_cong) auto
  then show ?case
    by (simp only: filterAvailable_Cons Let_def fst_conv Cons.IH) simp
qed

lemma clearExpired_eq:
  "clearExpiredRateLimits now a =
     a\<lparr>rateLimitResetTimes := (\<lambda>k. case rateLimitResetTimes a k of
            None \<Rightarrow> None | Some t \<Rightarrow> if t \<le> now then None else Some t)\<rparr>"
proof -
  have "rateLimitResetTimes (clearExpiredRateLimits now a) =
        (\<lambda>k. case rateLimitResetTimes a k of
            None \<Rightarrow> None | Some t \<Rightarrow> if t \<le> now then None else Some t)"
    by (rule ext) (rule clearExpired_times)
  moreover have "ManagedAccount.more (clearExpiredRateLimits now a) = ManagedAccount.more a"
    "index (clearExpiredRateLimits now a) = index a"
    "email (clearExpiredRateLimits now a) = email a"
    "addedAt (clearExpiredRateLimits now a) = addedAt a"
    "lastUsed (clearExpiredRateLimits now a) = lastUsed a"
    "parts (clearExpiredRateLimits now a) = parts a"
    "access (clearExpiredRateLimits now a) = access a"
    "expires (clearExpiredRateLimits now a) = expires a"
    "lastSwitchReason (clearExpiredRateLimits now a) = lastSwitchReason a"
    by (simp_all add: clearExpiredRateLimits_def clearKey_def split: option.splits)
  ultimately show ?thesis
    by (intro ManagedAccount.equality) simp_all
qed

lemma clearExpired_idem [simp]:
  "clearExpiredRateLimits now (clearExpiredRateLimits now a) = clearExpiredRateLimits now a"
  by (subst clearExpired_eq) (auto simp: clearExpired_times fun_eq_iff clearExpired_eq split: option.splits)

lemma filterAvailable_snd:
  "snd (filterAvailable now family rs h) r =
     (if r \<in> set rs then clearExpiredRateLimits now (h r) else h r)"
proof (induction rs arbitrary: h)
  case Nil
  then show ?case by simp
next
  case (Cons a rs)
  show ?case
    by (simp only: filterAvailable_Cons Let_def snd_conv Cons.IH) simp
qed

subsection \<open>Selection: \<^verbatim>\<open>getNextForFamily\<close>\<close>

lemma getNextForFamily_fst:
  "fst (getNextForFamily m family) =
     (let available = filter (\<lambda>r. \<not> isRateLimitedForFamily (clock m) (store m r) family) (accounts m)
      in if available = [] then None else Some (available ! (cursor m mod length available)))"
  by (simp add: getNextForFamily_def Let_def case_prod_beta filterAvailable_fst)

lemma getNextForFamily_cursor:
  "cursor (snd (getNextForFamily m family)) =
     (if filter (\<lambda>r. \<not> isRateLimitedForFamily (clock m) (store m r) family) (accounts m) = []
      then cursor m else cursor m + 1)"
  by (simp add: getNextForFamily_def Let_def case_prod_beta filterAvailable_fst)

lemma getNextForFamily_accounts:
  "accounts (snd (getNextForFamily m family)) = accounts m"
  "clock (snd (getNextForFamily m family)) = clock m"
  by (simp_all add: getNextForFamily_def Let_def case_prod_beta)

lemma getNextForFamily_times:
  "rateLimitResetTimes (store (snd (getNextForFamily m family)) r) =
     (if r \<in> set (accounts m)
      then rateLimitResetTimes (clearExpiredRateLimits (clock m) (store m r))
      else rateLimitResetTimes (store m r))"
  by (simp add: getNextForFamily_def Let_def case_prod_beta filterAvailable_snd)

text \<open>
  Claim C6. \<^verbatim>\<open>getNextForFamily(family)\<close> keeps the accounts that are not rate-limited
  for the family once their expired reset times are pruned. When none is kept it returns
  null and the cursor is unchanged; otherwise it returns the kept account at position
  \<open>cursor mod length\<close> and the cursor grows by one. The array is unchanged and the
  pruning is visible in the store for every account of the pool.
\<close>

theorem getNextForFamily_contract:
  "let filtered = filter (\<lambda>r. \<not> isRateLimitedForFamily (clock m)
                               (clearExpiredRateLimits (clock m) (store m r)) family) (accounts m);
       result = fst (getNextForFamily m family);
       m' = snd (getNextForFamily m family)
   in (if filtered = [] then result = None \<and> cursor m' = cursor m
       else result = Some (filtered ! (cursor m mod length filtered)) \<and> cursor m' = cursor m + 1)
      \<and> accounts m' = accounts m
      \<and> (\<forall>r. rateLimitResetTimes (store m' r) =
               (if r \<in> set (accounts m)
                then rateLimitResetTimes (clearExpiredRateLimits (clock m) (store m r))
                else rateLimitResetTimes (store m r)))"
  unfolding Let_def
  by (simp add: getNextForFamily_fst getNextForFamily_cursor getNextForFamily_accounts
        getNextForFamily_times Let_def)

subsection \<open>A pool used to run the theorems on concrete input\<close>

definition blankAccount :: "int \<Rightarrow> ManagedAccount" where
  "blankAccount i =
     \<lparr>index = i, email = None, addedAt = 0, lastUsed = 0,
      parts = \<lparr>refreshToken = ''token'', projectId = None, managedProjectId = None\<rparr>,
      access = None, expires = None, rateLimitResetTimes = (\<lambda>k. None),
      lastSwitchReason = None\<rparr>"

definition limitedUntil :: "ManagedAccount \<Rightarrow> QuotaKey \<Rightarrow> int \<Rightarrow> ManagedAccount" where
  "limitedUntil a k t = a\<lparr>rateLimitResetTimes := (rateLimitResetTimes a)(k := Some t)\<rparr>"

definition examplePool :: AccountManager where
  "examplePool =
     \<lparr>store = (\<lambda>r. blankAccount (int r))
        (0 := limitedUntil (blankAccount 0) QClaude 5000,
         1 := limitedUntil (blankAccount 1) QClaude 500),
      accounts = [0, 1, 2], cursor = 3,
      currentAccountIndexByFamily = (\<lambda>f. 0),
      lastToastAccountIndex = -1, lastToastTime = 0, clock = 1000\<rparr>"

theorem getNextForFamily_contract_witness:
  "fst (getNextForFamily examplePool Claude) = Some 2 \<and>
   cursor (snd (getNextForFamily examplePool Claude)) = 4 \<and>
   rateLimitResetTimes (store (snd (getNextForFamily examplePool Claude)) 1) QClaude = None \<and>
   rateLimitResetTimes (store (snd (getNextForFamily examplePool Claude)) 0) QClaude = Some 5000"
  using getNextForFamily_contract [of examplePool Claude]
  by (simp add: Let_def examplePool_def blankAccount_def limitedUntil_def
        isRateLimitedForFamily_def isRateLimitedForQuotaKey_def clearExpired_times
        numeral_2_eq_2 [symmetric] nth_Cons')

subsection \<open>Selection: \<^verbatim>\<open>getCurrentOrNextForFamily\<close>\<close>

text \<open>
  What happens to a pool between two selections: a request marks an account rate-limited,
  or time passes.
\<close>

datatype PoolEvent =
    MarkRateLimited ref int ModelFamily HeaderStyle
  | AdvanceTime nat

fun applyEvent :: "AccountManager \<Rightarrow> PoolEvent \<Rightarrow> AccountManager" where
  "applyEvent m (MarkRateLimited account retryAfterMs family headerStyle) =
     markRateLimited m account retryAfterMs family headerStyle"
| "applyEvent m (AdvanceTime ms) = m\<lparr>clock := clock m + int ms\<rparr>"

definition runEvents :: "AccountManager \<Rightarrow> PoolEvent list \<Rightarrow> AccountManager" where
  "runEvents m events = foldl applyEvent m events"

text \<open>
  The specification's reading of availability, stated on the quota keys: a key is free
  when it has no reset time or its reset time is not in the future.
\<close>

definition keyIsFree :: "int \<Rightarrow> ManagedAccount \<Rightarrow> QuotaKey \<Rightarrow> bool" where
  "keyIsFree now account key =
     (case rateLimitResetTimes account key of None \<Rightarrow> True | Some t \<Rightarrow> t \<le> now)"

fun quotaKeysOf :: "ModelFamily \<Rightarrow> QuotaKey list" where
  "quotaKeysOf Claude = [QClaude]"
| "quotaKeysOf Gemini = [QGeminiAntigravity, QGeminiCli]"

definition hasFreeKey :: "int \<Rightarrow> ManagedAccount \<Rightarrow> ModelFamily \<Rightarrow> bool" where
  "hasFreeKey now account family = (\<exists>k \<in> set (quotaKeysOf family). keyIsFree now account k)"

lemma hasFreeKey_iff:
  "hasFreeKey now a family = (\<not> isRateLimitedForFamily now a family)"
  by (cases family)
     (auto simp: hasFreeKey_def keyIsFree_def isRateLimitedForFamily_def
        isRateLimitedForQuotaKey_def split: option.splits)

lemma getCurrent_mem:
  "getCurrentAccountForFamily m family = Some c \<Longrightarrow> c \<in> set (accounts m)"
  by (auto simp: getCurrentAccountForFamily_def Let_def split: if_splits)

lemma limited_upd_cleared [simp]:
  "isRateLimitedForFamily now ((h(c := clearExpiredRateLimits now (h c))) r) family =
   isRateLimitedForFamily now (h r) family"
  by simp

lemma fst_tryNext:
  "fst (case p of (None, m') \<Rightarrow> (None, m') | (Some n, m') \<Rightarrow> (Some n, f n m')) = fst p"
  by (cases p) (auto split: option.splits)

lemma getNext_pruned_fst:
  "fst (getNextForFamily (m\<lparr>store := (store m)(c := clearExpiredRateLimits (clock m) (store m c))\<rparr>) family)
   = fst (getNextForFamily m family)"
proof -
  have "(\<lambda>r. \<not> isRateLimitedForFamily (clock m)
            (((store m)(c := clearExpiredRateLimits (clock m) (store m c))) r) family)
      = (\<lambda>r. \<not> isRateLimitedForFamily (clock m) (store m r) family)"
    by (rule ext) simp
  then show ?thesis
    by (simp add: getNextForFamily_fst Let_def del: fun_upd_apply)
qed

lemma getCurrentOrNext_fst:
  "fst (getCurrentOrNextForFamily m family) =
     (case getCurrentAccountForFamily m family of
        None \<Rightarrow> fst (getNextForFamily m family)
      | Some c \<Rightarrow>
          if \<not> isRateLimitedForFamily (clock m) (store m c) family then Some c
          else fst (getNextForFamily m family))"
  by (simp add: getCurrentOrNextForFamily_def Let_def fst_tryNext getNext_pruned_fst
        split: option.splits)

lemma getNext_Some_iff:
  "(fst (getNextForFamily m family) \<noteq> None) =
   (\<exists>r \<in> set (accounts m). \<not> isRateLimitedForFamily (clock m) (store m r) family)"
  by (auto simp: getNextForFamily_fst Let_def filter_empty_conv)

lemma getNext_Some_free:
  assumes "fst (getNextForFamily m family) = Some r"
  shows "r \<in> set (accounts m) \<and> \<not> isRateLimitedForFamily (clock m) (store m r) family"
proof -
  let ?av = "filter (\<lambda>r. \<not> isRateLimitedForFamily (clock m) (store m r) family) (accounts m)"
  from assms have ne: "?av \<noteq> []" and r: "r = ?av ! (cursor m mod length ?av)"
    by (auto simp: getNextForFamily_fst Let_def split: if_splits)
  from ne have "cursor m mod length ?av < length ?av" by simp
  then have "r \<in> set ?av" unfolding r by (rule nth_mem)
  then show ?thesis by simp
qed

lemma getCurrentOrNext_Some_iff:
  "(fst (getCurrentOrNextForFamily m family) \<noteq> None) =
   (\<exists>r \<in> set (accounts m). \<not> isRateLimitedForFamily (clock m) (store m r) family)"
proof (cases "getCurrentAccountForFamily m family")
  case None
  then show ?thesis
    using getNext_Some_iff [of m family] by (simp add: getCurrentOrNext_fst)
next
  case (Some c)
  then have "c \<in> set (accounts m)" by (rule getCurrent_mem)
  with Some show ?thesis
    using getNext_Some_iff [of m family] by (auto simp: getCurrentOrNext_fst)
qed

lemma getCurrentOrNext_Some_free:
  assumes "fst (getCurrentOrNextForFamily m family) = Some r"
  shows "r \<in> set (accounts m) \<and> \<not> isRateLimitedForFamily (clock m) (store m r) family"
proof (cases "getCurrentAccountForFamily m family")
  case None
  with assms show ?thesis by (simp add: getCurrentOrNext_fst getNext_Some_free)
next
  case (Some c)
  then have "c \<in> set (accounts m)" by (rule getCurrent_mem)
  with Some assms show ?thesis
    by (auto simp: getCurrentOrNext_fst getNext_Some_free split: if_splits)
qed

text \<open>
  Claim C1. After any sequence of \<^verbatim>\<open>markRateLimited\<close> calls and time advances,
  \<^verbatim>\<open>getCurrentOrNextForFamily(family)\<close> returns an account exactly when some account of
  the pool has a free quota key of the family (no reset time, or a reset time that is not
  in the future: the code tests \<^verbatim>\<open>nowMs() < resetTime\<close>): the key \<^verbatim>\<open>claude\<close> for
  claude, one of \<^verbatim>\<open>gemini-antigravity\<close> and \<^verbatim>\<open>gemini-cli\<close> for gemini. The account
  returned is in the pool and has such a key. An account with exactly one of its two gemini
  keys limited keeps the gemini family available, and it is the account returned when it
  is the current gemini account or the only account of the pool.
\<close>

theorem getCurrentOrNextForFamily_returns_iff_free_key:
  assumes "m = runEvents m0 events"
  shows
    "((fst (getCurrentOrNextForFamily m family) \<noteq> None) =
        (\<exists>r \<in> set (accounts m). hasFreeKey (clock m) (store m r) family))
     \<and> (\<forall>r. fst (getCurrentOrNextForFamily m family) = Some r \<longrightarrow>
            r \<in> set (accounts m) \<and> hasFreeKey (clock m) (store m r) family)
     \<and> (\<forall>r \<in> set (accounts m).
            keyIsFree (clock m) (store m r) QGeminiAntigravity \<noteq>
            keyIsFree (clock m) (store m r) QGeminiCli \<longrightarrow>
              fst (getCurrentOrNextForFamily m Gemini) \<noteq> None
              \<and> (getCurrentAccountForFamily m Gemini = Some r \<longrightarrow>
                   fst (getCurrentOrNextForFamily m Gemini) = Some r)
              \<and> (accounts m = [r] \<longrightarrow>
                   fst (getCurrentOrNextForFamily m Gemini) = Some r))"
proof (intro conjI allI impI ballI)
  show "(fst (getCurrentOrNextForFamily m family) \<noteq> None) =
        (\<exists>r \<in> set (accounts m). hasFreeKey (clock m) (store m r) family)"
    by (simp only: getCurrentOrNext_Some_iff hasFreeKey_iff)
next
  fix r assume "fst (getCurrentOrNextForFamily m family) = Some r"
  then have "r \<in> set (accounts m) \<and> \<not> isRateLimitedForFamily (clock m) (store m r) family"
    by (rule getCurrentOrNext_Some_free)
  then show "r \<in> set (accounts m)" and "hasFreeKey (clock m) (store m r) family"
    by (simp_all add: hasFreeKey_iff)
next
  fix r
  assume r: "r \<in> set (accounts m)"
    and one: "keyIsFree (clock m) (store m r) QGeminiAntigravity \<noteq>
              keyIsFree (clock m) (store m r) QGeminiCli"
  from one have free: "hasFreeKey (clock m) (store m r) Gemini"
    by (auto simp: hasFreeKey_def)
  then have nl: "\<not> isRateLimitedForFamily (clock m) (store m r) Gemini"
    by (simp add: hasFreeKey_iff)
  from r nl show "fst (getCurrentOrNextForFamily m Gemini) \<noteq> None"
    by (simp only: getCurrentOrNext_Some_iff) blast
  {
    assume "getCurrentAccountForFamily m Gemini = Some r"
    with nl show "fst (getCurrentOrNextForFamily m Gemini) = Some r"
      by (simp add: getCurrentOrNext_fst)
  }
  {
    assume single: "accounts m = [r]"
    from single nl have nx: "fst (getNextForFamily m Gemini) = Some r"
      by (simp add: getNextForFamily_fst)
    show "fst (getCurrentOrNextForFamily m Gemini) = Some r"
    proof (cases "getCurrentAccountForFamily m Gemini")
      case None
      with nx show ?thesis by (simp add: getCurrentOrNext_fst)
    next
      case (Some c)
      then have "c \<in> set (accounts m)" by (rule getCurrent_mem)
      with single have "c = r" by simp
      with Some nl show ?thesis by (simp add: getCurrentOrNext_fst)
    qed
  }
qed

definition exampleEvents :: "PoolEvent list" where
  "exampleEvents = [MarkRateLimited 0 60000 Gemini Antigravity, AdvanceTime 1000,
                    MarkRateLimited 0 30000 Claude Antigravity]"

theorem getCurrentOrNextForFamily_returns_iff_free_key_witness:
  "(\<exists>r \<in> set (accounts (runEvents examplePool exampleEvents)).
       hasFreeKey (clock (runEvents examplePool exampleEvents))
         (store (runEvents examplePool exampleEvents) r) Gemini)
   \<and> keyIsFree (clock (runEvents examplePool exampleEvents))
         (store (runEvents examplePool exampleEvents) 0) QGeminiCli
   \<and> \<not> keyIsFree (clock (runEvents examplePool exampleEvents))
         (store (runEvents examplePool exampleEvents) 0) QGeminiAntigravity
   \<and> fst (getCurrentOrNextForFamily (runEvents examplePool exampleEvents) Gemini) = Some 0
   \<and> fst (getCurrentOrNextForFamily (runEvents examplePool exampleEvents) Claude) = Some 2"
proof -
  define m where "m = runEvents examplePool exampleEvents"
  have acc: "accounts m = [0, 1, 2]" and clk: "clock m = 2000"
    and cur: "currentAccountIndexByFamily m = (\<lambda>f. 0)" and crs: "cursor m = 3"
    by (simp_all add: m_def runEvents_def exampleEvents_def examplePool_def markRateLimited_def)
  have times:
    "rateLimitResetTimes (store m 0) = (\<lambda>k. None)(QClaude := Some 32000, QGeminiAntigravity := Some 61000)"
    "rateLimitResetTimes (store m 1) = (\<lambda>k. None)(QClaude := Some 500)"
    "rateLimitResetTimes (store m 2) = (\<lambda>k. None)"
    by (auto simp: m_def runEvents_def exampleEvents_def examplePool_def markRateLimited_def
        getQuotaKey_def blankAccount_def limitedUntil_def fun_eq_iff)
  have k1: "keyIsFree (clock m) (store m 0) QGeminiCli"
    and k2: "\<not> keyIsFree (clock m) (store m 0) QGeminiAntigravity"
    by (simp_all add: keyIsFree_def times clk)
  have c0: "getCurrentAccountForFamily m Gemini = Some 0"
    by (simp add: getCurrentAccountForFamily_def acc cur)
  note main = getCurrentOrNextForFamily_returns_iff_free_key [OF m_def, of Gemini]
  from main k1 k2 c0 have g: "fst (getCurrentOrNextForFamily m Gemini) = Some 0"
    by (simp add: acc)
  from main g have ex: "\<exists>r \<in> set (accounts m). hasFreeKey (clock m) (store m r) Gemini"
    by simp
  have cl: "fst (getCurrentOrNextForFamily m Claude) = Some 2"
    by (simp add: getCurrentOrNext_fst getCurrentAccountForFamily_def acc cur clk crs times
        getNextForFamily_fst isRateLimitedForFamily_def isRateLimitedForQuotaKey_def
        numeral_2_eq_2 [symmetric] nth_Cons')
  from ex k1 k2 g cl show ?thesis unfolding m_def by simp
qed

subsection \<open>Removal: \<^verbatim>\<open>removeAccount\<close>\<close>

fun indexOf :: "ref list \<Rightarrow> ref \<Rightarrow> int" where
  "indexOf [] x = -1"
| "indexOf (y # ys) x =
     (if y = x then 0 else (let i = indexOf ys x in if i < 0 then -1 else i + 1))"

definition splice1 :: "'a list \<Rightarrow> nat \<Rightarrow> 'a list" where
  "splice1 xs idx = take idx xs @ drop (idx + 1) xs"

text \<open>The \<^verbatim>\<open>forEach\<close> that writes each account's position into its \<^verbatim>\<open>index\<close> field.\<close>

fun reindex :: "ref list \<Rightarrow> nat \<Rightarrow> (ref \<Rightarrow> ManagedAccount) \<Rightarrow> (ref \<Rightarrow> ManagedAccount)" where
  "reindex [] i h = h"
| "reindex (acc # rest) i h = reindex rest (i + 1) (h(acc := (h acc)\<lparr>index := int i\<rparr>))"

definition adjustFamilyIndex ::
  "int \<Rightarrow> nat \<Rightarrow> (ModelFamily \<Rightarrow> int) \<Rightarrow> ModelFamily \<Rightarrow> (ModelFamily \<Rightarrow> int)" where
  "adjustFamilyIndex idx len cur family =
     (let cur1 = (if cur family > idx then cur(family := cur family - 1) else cur);
          cur2 = (if cur1 family \<ge> int len then cur1(family := -1) else cur1)
      in cur2)"

definition removeAccount :: "AccountManager \<Rightarrow> ref \<Rightarrow> bool \<times> AccountManager" where
  "removeAccount m account =
     (let idx = indexOf (accounts m) account
      in if idx < 0 then (False, m)
         else
           (let spliced = splice1 (accounts m) (nat idx);
                m1 = m\<lparr>accounts := spliced, store := reindex spliced 0 (store m)\<rparr>
            in if length (accounts m1) = 0
               then (True, m1\<lparr>cursor := 0,
                               currentAccountIndexByFamily :=
                                 (currentAccountIndexByFamily m1)(Claude := -1, Gemini := -1)\<rparr>)
               else
                 (let c1 = (if int (cursor m1) > idx then cursor m1 - 1 else cursor m1);
                      c2 = c1 mod length (accounts m1);
                      cur = foldl (adjustFamilyIndex idx (length (accounts m1)))
                              (currentAccountIndexByFamily m1) [Claude, Gemini]
                  in (True, m1\<lparr>cursor := c2, currentAccountIndexByFamily := cur\<rparr>))))"

lemma indexOf_neg: "(indexOf xs x < 0) = (x \<notin> set xs)"
  by (induction xs) (auto simp: Let_def)

lemma indexOf_ge: "indexOf xs x \<ge> -1"
  by (induction xs) (auto simp: Let_def)

lemma indexOf_nth:
  "x \<in> set xs \<Longrightarrow> nat (indexOf xs x) < length xs \<and> xs ! nat (indexOf xs x) = x"
proof (induction xs)
  case Nil
  then show ?case by simp
next
  case (Cons y ys)
  show ?case
  proof (cases "y = x")
    case True
    then show ?thesis by simp
  next
    case False
    with Cons.prems have mem: "x \<in> set ys" by simp
    then have nn: "\<not> indexOf ys x < 0" by (simp add: indexOf_neg)
    from Cons.IH [OF mem] nn False show ?thesis
      by (simp add: Let_def nat_add_distrib)
  qed
qed

lemma reindex_notin: "r \<notin> set rs \<Longrightarrow> reindex rs i h r = h r"
  by (induction rs arbitrary: i h) auto

lemma reindex_index:
  "distinct rs \<Longrightarrow> k < length rs \<Longrightarrow> index (reindex rs i h (rs ! k)) = int (i + k)"
proof (induction rs arbitrary: i h k)
  case Nil
  then show ?case by simp
next
  case (Cons a rs)
  show ?case
  proof (cases k)
    case 0
    with Cons.prems show ?thesis by (simp add: reindex_notin)
  next
    case (Suc j)
    with Cons.prems Cons.IH [of j "i + 1"] show ?thesis by simp
  qed
qed

lemma reindex_other_fields:
  "rateLimitResetTimes (reindex rs i h r) = rateLimitResetTimes (h r)"
  "lastUsed (reindex rs i h r) = lastUsed (h r)"
  "parts (reindex rs i h r) = parts (h r)"
  by (induction rs arbitrary: i h; simp)+

lemma distinct_splice1: "distinct xs \<Longrightarrow> distinct (splice1 xs k)"
  unfolding splice1_def
  by (metis distinct_take distinct_drop distinct_append append_take_drop_id
      set_drop_subset set_take_disj_set_drop_if_distinct disjoint_iff subsetD Suc_eq_plus1 le_add1
      Suc_n_not_le_n nat_le_linear)

lemma splice1_length: "idx < length xs \<Longrightarrow> length (splice1 xs idx) = length xs - 1"
  by (simp add: splice1_def)

lemma splice1_nth_before: "k < idx \<Longrightarrow> idx < length xs \<Longrightarrow> splice1 xs idx ! k = xs ! k"
  by (simp add: splice1_def nth_append)

lemma splice1_nth_after:
  "idx \<le> k \<Longrightarrow> k + 1 < length xs \<Longrightarrow> splice1 xs idx ! k = xs ! (k + 1)"
  by (simp add: splice1_def nth_append min_def)

lemma adjust_both:
  "foldl (adjustFamilyIndex idx len) cur [Claude, Gemini] family =
     (let c = (if cur family > idx then cur family - 1 else cur family)
      in if c \<ge> int len then -1 else c)"
  by (cases family) (simp_all add: adjustFamilyIndex_def Let_def)

lemma removeAccount_absent:
  "account \<notin> set (accounts m) \<Longrightarrow> removeAccount m account = (False, m)"
  by (simp add: removeAccount_def indexOf_neg)

lemma removeAccount_present:
  assumes "account \<in> set (accounts m)"
  shows "fst (removeAccount m account) = True"
    and "accounts (snd (removeAccount m account)) = splice1 (accounts m) (nat (indexOf (accounts m) account))"
    and "store (snd (removeAccount m account)) =
           reindex (splice1 (accounts m) (nat (indexOf (accounts m) account))) 0 (store m)"
    and "cursor (snd (removeAccount m account)) =
           (let idx = indexOf (accounts m) account;
                n' = length (splice1 (accounts m) (nat idx))
            in if n' = 0 then 0
               else (if int (cursor m) > idx then cursor m - 1 else cursor m) mod n')"
    and "currentAccountIndexByFamily (snd (removeAccount m account)) family =
           (let idx = indexOf (accounts m) account;
                n' = length (splice1 (accounts m) (nat idx))
            in if n' = 0 then -1
               else (let c = (if currentAccountIndexByFamily m family > idx
                              then currentAccountIndexByFamily m family - 1
                              else currentAccountIndexByFamily m family)
                     in if c \<ge> int n' then -1 else c))"
proof -
  from assms have nn: "\<not> indexOf (accounts m) account < 0" by (simp add: indexOf_neg)
  show "fst (removeAccount m account) = True"
    using nn by (simp add: removeAccount_def Let_def)
  show "accounts (snd (removeAccount m account)) = splice1 (accounts m) (nat (indexOf (accounts m) account))"
    using nn by (simp add: removeAccount_def Let_def)
  show "store (snd (removeAccount m account)) =
           reindex (splice1 (accounts m) (nat (indexOf (accounts m) account))) 0 (store m)"
    using nn by (simp add: removeAccount_def Let_def)
  show "cursor (snd (removeAccount m account)) =
           (let idx = indexOf (accounts m) account;
                n' = length (splice1 (accounts m) (nat idx))
            in if n' = 0 then 0
               else (if int (cursor m) > idx then cursor m - 1 else cursor m) mod n')"
    using nn by (simp add: removeAccount_def Let_def)
  show "currentAccountIndexByFamily (snd (removeAccount m account)) family =
           (let idx = indexOf (accounts m) account;
                n' = length (splice1 (accounts m) (nat idx))
            in if n' = 0 then -1
               else (let c = (if currentAccountIndexByFamily m family > idx
                              then currentAccountIndexByFamily m family - 1
                              else currentAccountIndexByFamily m family)
                     in if c \<ge> int n' then -1 else c))"
    using nn by (cases family) (simp_all add: removeAccount_def Let_def adjust_both del: foldl_Cons foldl_Nil)
qed

text \<open>
  Claim C7, as the code has it. For an account of the pool (the objects of the pool being
  distinct), \<^verbatim>\<open>removeAccount\<close> deletes it from the array and writes each survivor's
  position into its \<^verbatim>\<open>index\<close> field; the cursor is 0 when the pool becomes empty and
  otherwise lies below the new length (decremented when it was past the removed position,
  then reduced modulo the new length). A family's active index greater than the removed
  position is decremented and so keeps designating the same account; it is reset to -1
  when it then lies past the end, and both are -1 when the pool becomes empty. An active
  index equal to the removed position is reset to -1 only when that position was the last
  one; otherwise it is kept and designates the account that followed the removed one.
  A smaller index is unchanged.
\<close>

theorem removeAccount_contract:
  assumes mem: "account \<in> set (accounts m)" and dist: "distinct (accounts m)"
  shows
    "let idx = nat (indexOf (accounts m) account);
         m' = snd (removeAccount m account);
         n' = length (accounts m')
     in fst (removeAccount m account) = True
        \<and> idx < length (accounts m) \<and> accounts m ! idx = account
        \<and> accounts m' = take idx (accounts m) @ drop (idx + 1) (accounts m)
        \<and> n' = length (accounts m) - 1
        \<and> (\<forall>k < n'. index (store m' (accounts m' ! k)) = int k)
        \<and> (if n' = 0 then cursor m' = 0
            else cursor m' < n' \<and>
                 cursor m' = (if cursor m > idx then cursor m - 1 else cursor m) mod n')
        \<and> (\<forall>family.
              let c = currentAccountIndexByFamily m family;
                  c' = currentAccountIndexByFamily m' family
              in if n' = 0 then c' = -1
                 else if c > int idx
                   then (if c - 1 \<ge> int n' then c' = -1
                         else c' = c - 1 \<and> accounts m' ! nat c' = accounts m ! nat c)
                 else if c = int idx
                   then (if idx = n' then c' = -1
                         else c' = c \<and> accounts m' ! idx = accounts m ! (idx + 1))
                 else c' = c \<and> (0 \<le> c \<longrightarrow> accounts m' ! nat c = accounts m ! nat c))"
proof -
  define idx where "idx = nat (indexOf (accounts m) account)"
  define m' where "m' = snd (removeAccount m account)"
  define n' where "n' = length (accounts m')"
  note pres = removeAccount_present [OF mem]
  from mem have nn: "\<not> indexOf (accounts m) account < 0" by (simp add: indexOf_neg)
  then have iidx: "indexOf (accounts m) account = int idx" by (simp add: idx_def)
  from indexOf_nth [OF mem] have lt: "idx < length (accounts m)" and at: "accounts m ! idx = account"
    by (simp_all add: idx_def)
  have acc': "accounts m' = splice1 (accounts m) idx"
    by (simp add: m'_def pres(2) idx_def)
  have n'eq: "n' = length (accounts m) - 1"
    by (simp add: n'_def acc' splice1_length lt)
  have d': "distinct (accounts m')" by (simp add: acc' distinct_splice1 dist)
  have st': "store m' = reindex (accounts m') 0 (store m)"
    by (simp add: m'_def pres(3) pres(2))
  have reidx: "\<forall>k < n'. index (store m' (accounts m' ! k)) = int k"
    using reindex_index [OF d', of _ 0 "store m"] by (simp add: st' n'_def)
  have cur: "cursor m' = (if n' = 0 then 0
        else (if cursor m > idx then cursor m - 1 else cursor m) mod n')"
  proof -
    have "length (splice1 (accounts m) idx) = n'" "(splice1 (accounts m) idx = []) = (n' = 0)"
      by (simp_all add: n'_def acc')
    with pres(4) show ?thesis by (simp add: Let_def iidx flip: m'_def)
  qed
  have fam: "currentAccountIndexByFamily m' family =
        (if n' = 0 then -1
         else (let c = (if currentAccountIndexByFamily m family > int idx
                        then currentAccountIndexByFamily m family - 1
                        else currentAccountIndexByFamily m family)
               in if c \<ge> int n' then -1 else c))" for family
  proof -
    have "length (splice1 (accounts m) idx) = n'" "(splice1 (accounts m) idx = []) = (n' = 0)"
      by (simp_all add: n'_def acc')
    with pres(5) [of family] show ?thesis by (simp add: Let_def iidx flip: m'_def)
  qed
  have famprop: "let c = currentAccountIndexByFamily m family;
                  c' = currentAccountIndexByFamily m' family
              in if n' = 0 then c' = -1
                 else if c > int idx
                   then (if c - 1 \<ge> int n' then c' = -1
                         else c' = c - 1 \<and> accounts m' ! nat c' = accounts m ! nat c)
                 else if c = int idx
                   then (if idx = n' then c' = -1
                         else c' = c \<and> accounts m' ! idx = accounts m ! (idx + 1))
                 else c' = c \<and> (0 \<le> c \<longrightarrow> accounts m' ! nat c = accounts m ! nat c)" for family
  proof -
    define c where "c = currentAccountIndexByFamily m family"
    consider (empty) "n' = 0" | (gt) "n' \<noteq> 0" "c > int idx" | (eq) "n' \<noteq> 0" "c = int idx"
      | (less) "n' \<noteq> 0" "c < int idx" by linarith
    then show ?thesis
    proof cases
      case empty
      then show ?thesis by (simp add: fam Let_def)
    next
      case gt
      show ?thesis
      proof (cases "c - 1 \<ge> int n'")
        case True
        with gt show ?thesis by (simp add: fam Let_def c_def [symmetric])
      next
        case False
        with gt n'eq have "idx \<le> nat (c - 1)" "nat (c - 1) + 1 < length (accounts m)"
          "nat (c - 1) + 1 = nat c" by linarith+
        then have "accounts m' ! nat (c - 1) = accounts m ! nat c"
          using splice1_nth_after [of idx "nat (c - 1)" "accounts m"] by (simp add: acc')
        with gt False show ?thesis by (simp add: fam Let_def c_def [symmetric])
      qed
    next
      case eq
      show ?thesis
      proof (cases "idx = n'")
        case True
        with eq show ?thesis by (simp add: fam Let_def c_def [symmetric])
      next
        case False
        with lt n'eq have "idx + 1 < length (accounts m)" by linarith
        then have "accounts m' ! idx = accounts m ! (idx + 1)"
          using splice1_nth_after [of idx idx "accounts m"] by (simp add: acc')
        moreover from False lt n'eq have "\<not> int n' \<le> int idx" by linarith
        ultimately show ?thesis using eq False by (simp add: fam Let_def c_def [symmetric])
      qed
    next
      case less
      have "0 \<le> c \<Longrightarrow> accounts m' ! nat c = accounts m ! nat c"
        using splice1_nth_before [of "nat c" idx "accounts m"] less lt by (simp add: acc')
      moreover from less lt n'eq have "\<not> int n' \<le> c" by linarith
      ultimately show ?thesis using less by (simp add: fam Let_def c_def [symmetric])
    qed
  qed
  have curprop: "if n' = 0 then cursor m' = 0
            else cursor m' < n' \<and>
                 cursor m' = (if cursor m > idx then cursor m - 1 else cursor m) mod n'"
    by (simp add: cur)
  have "fst (removeAccount m account) = True" by (rule pres(1))
  moreover have "accounts m' = take idx (accounts m) @ drop (idx + 1) (accounts m)"
    by (simp add: acc' splice1_def)
  ultimately show ?thesis
    unfolding Let_def idx_def [symmetric] m'_def [symmetric] n'_def [symmetric]
    using lt at n'eq reidx curprop famprop [unfolded Let_def] by blast
qed

definition removalPool :: AccountManager where
  "removalPool = examplePool\<lparr>currentAccountIndexByFamily := (\<lambda>f. 0)(Claude := 1, Gemini := 2)\<rparr>"

text \<open>
  The claim as the specification words it (an active index that referenced the removed
  position is reset to -1) fails: with accounts \<open>[0, 1, 2]\<close> and the claude index on
  position 1, removing the account at position 1 leaves the claude index at 1.
\<close>

theorem removeAccount_keeps_index_of_removed_position:
  "indexOf (accounts removalPool) 1 = 1
   \<and> currentAccountIndexByFamily removalPool Claude = 1
   \<and> fst (removeAccount removalPool 1) = True
   \<and> accounts (snd (removeAccount removalPool 1)) = [0, 2]
   \<and> currentAccountIndexByFamily (snd (removeAccount removalPool 1)) Claude = 1
   \<and> currentAccountIndexByFamily (snd (removeAccount removalPool 1)) Claude \<noteq> -1"
  by (simp add: removalPool_def examplePool_def removeAccount_def Let_def splice1_def
        adjustFamilyIndex_def)

theorem removeAccount_contract_witness:
  "1 \<in> set (accounts removalPool) \<and> distinct (accounts removalPool)
   \<and> accounts (snd (removeAccount removalPool 1)) = [0, 2]
   \<and> index (store (snd (removeAccount removalPool 1)) 0) = 0
   \<and> index (store (snd (removeAccount removalPool 1)) 2) = 1
   \<and> cursor (snd (removeAccount removalPool 1)) = 0
   \<and> currentAccountIndexByFamily (snd (removeAccount removalPool 1)) Claude = 1
   \<and> currentAccountIndexByFamily (snd (removeAccount removalPool 1)) Gemini = 1"
proof -
  define m' where "m' = snd (removeAccount removalPool 1)"
  have mem: "1 \<in> set (accounts removalPool)" and dist: "distinct (accounts removalPool)"
    by (simp_all add: removalPool_def examplePool_def)
  have idx: "nat (indexOf (accounts removalPool) 1) = Suc 0"
    by (simp add: removalPool_def examplePool_def)
  have base: "accounts removalPool = [0, 1, 2]" "cursor removalPool = 3"
    "currentAccountIndexByFamily removalPool Claude = 1"
    "currentAccountIndexByFamily removalPool Gemini = 2"
    by (simp_all add: removalPool_def examplePool_def)
  note c = removeAccount_contract [OF mem dist, unfolded Let_def idx, folded m'_def]
  from c have acc0: "accounts m' = take (Suc 0) (accounts removalPool) @ drop (Suc 0 + 1) (accounts removalPool)"
    by (elim conjE)
  then have acc: "accounts m' = [0, 2]" by (simp add: base)
  from c have "\<forall>k<length (accounts m'). index (store m' (accounts m' ! k)) = int k"
    by (elim conjE)
  then have ix: "\<And>k. k < 2 \<Longrightarrow> index (store m' ([0, 2] ! k)) = int k"
    by (simp add: acc)
  from ix [of 0] ix [of 1]
  have i0: "index (store m' 0) = 0" and i2: "index (store m' 2) = 1"
    by simp_all
  from c have "if length (accounts m') = 0 then cursor m' = 0
      else cursor m' < length (accounts m') \<and>
           cursor m' = (if Suc 0 < cursor removalPool then cursor removalPool - 1
                        else cursor removalPool) mod length (accounts m')"
    by (elim conjE)
  then have cu: "cursor m' = 0" by (simp add: acc base numeral_2_eq_2 [symmetric])
  from c have fams: "\<forall>family.
         if length (accounts m') = 0 then currentAccountIndexByFamily m' family = - 1
         else if int (Suc 0) < currentAccountIndexByFamily removalPool family
           then if int (length (accounts m')) \<le> currentAccountIndexByFamily removalPool family - 1
                then currentAccountIndexByFamily m' family = - 1
                else currentAccountIndexByFamily m' family =
                       currentAccountIndexByFamily removalPool family - 1 \<and>
                     accounts m' ! nat (currentAccountIndexByFamily m' family) =
                       accounts removalPool ! nat (currentAccountIndexByFamily removalPool family)
           else if currentAccountIndexByFamily removalPool family = int (Suc 0)
                then if Suc 0 = length (accounts m')
                     then currentAccountIndexByFamily m' family = - 1
                     else currentAccountIndexByFamily m' family =
                            currentAccountIndexByFamily removalPool family \<and>
                          accounts m' ! Suc 0 = accounts removalPool ! (Suc 0 + 1)
                else currentAccountIndexByFamily m' family =
                       currentAccountIndexByFamily removalPool family \<and>
                     (0 \<le> currentAccountIndexByFamily removalPool family \<longrightarrow>
                      accounts m' ! nat (currentAccountIndexByFamily removalPool family) =
                      accounts removalPool ! nat (currentAccountIndexByFamily removalPool family))"
    by (elim conjE)
  from fams [rule_format, of Claude] have f1: "currentAccountIndexByFamily m' Claude = 1"
    by (simp add: acc base)
  from fams [rule_format, of Gemini] have f2: "currentAccountIndexByFamily m' Gemini = 1"
    by (simp add: acc base)
  from mem dist acc i0 i2 cu f1 f2 show ?thesis unfolding m'_def by simp
qed

section \<open>Credential store: versioned accounts file and its migration (storage.js)\<close>

text \<open>
  The per-account fields that every version of the file carries are a record of their own;
  each version extends it. An optional field is an \<open>option\<close>. A migration reads
  \<^verbatim>\<open>Date.now()\<close>; the model passes the clock value in (one reading per migration).
  JavaScript's truthiness test on a number (\<^verbatim>\<open>acc.rateLimitResetTime && ...\<close>) is
  written out: a number is truthy when it is not 0.
\<close>

record AccountFields =
  meta_email :: "string option"
  meta_refreshToken :: string
  meta_projectId :: "string option"
  meta_managedProjectId :: "string option"
  meta_addedAt :: int
  meta_lastUsed :: int
  meta_lastSwitchReason :: "SwitchReason option"

record AccountMetadataV1 = AccountFields +
  isRateLimited :: "bool option"
  rateLimitResetTime :: "int option"

record RateLimitState =
  rl_claude :: "int option"
  rl_gemini :: "int option"

record AccountMetadata = AccountFields +
  rateLimitResetTimesV2 :: "RateLimitState option"

record RateLimitStateV3 =
  rl3_claude :: "int option"
  rl3_gemini_antigravity :: "int option"
  rl3_gemini_cli :: "int option"

record AccountMetadataV3 = AccountFields +
  rateLimitResetTimesV3 :: "RateLimitStateV3 option"

record AccountStorageV1 =
  accountsV1 :: "AccountMetadataV1 list"
  activeIndexV1 :: "int option"

record AccountStorage =
  accountsV2 :: "AccountMetadata list"
  activeIndexV2 :: "int option"

record AccountStorageV3 =
  accountsV3 :: "AccountMetadataV3 list"
  activeIndexV3 :: "int option"
  activeIndexByFamily :: "(int option \<times> int option) option"

definition truthyNumber :: "int option \<Rightarrow> bool" where
  "truthyNumber v = (case v of None \<Rightarrow> False | Some n \<Rightarrow> n \<noteq> 0)"

definition migrateAccountV1 :: "int \<Rightarrow> AccountMetadataV1 \<Rightarrow> AccountMetadata" where
  "migrateAccountV1 now acc =
     (let rateLimitResetTimes =
            (if isRateLimited acc = Some True \<and> truthyNumber (rateLimitResetTime acc)
                \<and> the (rateLimitResetTime acc) > now
             then \<lparr>rl_claude = rateLimitResetTime acc, rl_gemini = rateLimitResetTime acc\<rparr>
             else \<lparr>rl_claude = None, rl_gemini = None\<rparr>)
      in \<lparr>meta_email = meta_email acc,
          meta_refreshToken = meta_refreshToken acc,
          meta_projectId = meta_projectId acc,
          meta_managedProjectId = meta_managedProjectId acc,
          meta_addedAt = meta_addedAt acc,
          meta_lastUsed = meta_lastUsed acc,
          meta_lastSwitchReason = meta_lastSwitchReason acc,
          rateLimitResetTimesV2 =
            (if rl_claude rateLimitResetTimes \<noteq> None \<or> rl_gemini rateLimitResetTimes \<noteq> None
             then Some rateLimitResetTimes else None)\<rparr>)"

definition migrateV1ToV2 :: "int \<Rightarrow> AccountStorageV1 \<Rightarrow> AccountStorage" where
  "migrateV1ToV2 now v1 =
     \<lparr>accountsV2 = map (migrateAccountV1 now) (accountsV1 v1),
      activeIndexV2 = activeIndexV1 v1\<rparr>"

definition migrateAccountV2 :: "int \<Rightarrow> AccountMetadata \<Rightarrow> AccountMetadataV3" where
  "migrateAccountV2 now acc =
     (let old_claude = (case rateLimitResetTimesV2 acc of None \<Rightarrow> None | Some r \<Rightarrow> rl_claude r);
          old_gemini = (case rateLimitResetTimesV2 acc of None \<Rightarrow> None | Some r \<Rightarrow> rl_gemini r);
          t0 = \<lparr>rl3_claude = None, rl3_gemini_antigravity = None, rl3_gemini_cli = None\<rparr>;
          t1 = (if truthyNumber old_claude \<and> the old_claude > now
                then t0\<lparr>rl3_claude := old_claude\<rparr> else t0);
          t2 = (if truthyNumber old_gemini \<and> the old_gemini > now
                then t1\<lparr>rl3_gemini_antigravity := old_gemini\<rparr> else t1)
      in \<lparr>meta_email = meta_email acc,
          meta_refreshToken = meta_refreshToken acc,
          meta_projectId = meta_projectId acc,
          meta_managedProjectId = meta_managedProjectId acc,
          meta_addedAt = meta_addedAt acc,
          meta_lastUsed = meta_lastUsed acc,
          meta_lastSwitchReason = meta_lastSwitchReason acc,
          rateLimitResetTimesV3 =
            (if rl3_claude t2 \<noteq> None \<or> rl3_gemini_antigravity t2 \<noteq> None \<or> rl3_gemini_cli t2 \<noteq> None
             then Some t2 else None)\<rparr>)"

definition migrateV2ToV3 :: "int \<Rightarrow> AccountStorage \<Rightarrow> AccountStorageV3" where
  "migrateV2ToV3 now v2 =
     \<lparr>accountsV3 = map (migrateAccountV2 now) (accountsV2 v2),
      activeIndexV3 = activeIndexV2 v2,
      activeIndexByFamily = None\<rparr>"

text \<open>
  What \<^verbatim>\<open>loadAccounts\<close> finds: the file cannot be read or parsed, its \<^verbatim>\<open>accounts\<close> is
  not an array, or it is a storage object of version 1, 2, 3 or of another version.
  \<open>activeIndexV3\<close> is \<open>None\<close> when the stored value is not an integer number.
\<close>

datatype StoredFile =
    Unreadable
  | AccountsNotArray
  | FileV1 AccountStorageV1
  | FileV2 AccountStorage
  | FileV3 AccountStorageV3
  | UnknownVersion

definition normalizeActiveIndex :: "AccountStorageV3 \<Rightarrow> AccountStorageV3" where
  "normalizeActiveIndex storage =
     (let s1 = (if activeIndexV3 storage = None then storage\<lparr>activeIndexV3 := Some 0\<rparr> else storage);
          s2 = (if the (activeIndexV3 s1) < 0 \<or> the (activeIndexV3 s1) \<ge> int (length (accountsV3 s1))
                then s1\<lparr>activeIndexV3 := Some 0\<rparr> else s1)
      in s2)"

text \<open>
  The result of \<^verbatim>\<open>loadAccounts\<close> (\<open>None\<close> for null) and the storage it passed to
  \<^verbatim>\<open>saveAccounts\<close>, if any. The two clock values are the readings of the first and of
  the second migration.
\<close>

definition loadAccounts ::
  "int \<Rightarrow> int \<Rightarrow> StoredFile \<Rightarrow> AccountStorageV3 option \<times> AccountStorageV3 option" where
  "loadAccounts now1 now2 file =
     (case file of
        Unreadable \<Rightarrow> (None, None)
      | AccountsNotArray \<Rightarrow> (None, None)
      | FileV1 v1 \<Rightarrow>
          (let v2 = migrateV1ToV2 now1 v1; storage = migrateV2ToV3 now2 v2
           in (Some (normalizeActiveIndex storage), Some storage))
      | FileV2 v2 \<Rightarrow>
          (let storage = migrateV2ToV3 now2 v2
           in (Some (normalizeActiveIndex storage), Some storage))
      | FileV3 v3 \<Rightarrow> (Some (normalizeActiveIndex v3), None)
      | UnknownVersion \<Rightarrow> (None, None))"

text \<open>A reset time survives a migration at clock value \<open>now\<close> when it lies in the future.\<close>

definition keepFuture :: "int \<Rightarrow> int option \<Rightarrow> int option" where
  "keepFuture now v = (case v of None \<Rightarrow> None | Some t \<Rightarrow> if now < t then Some t else None)"

lemma normalizeActiveIndex_accounts [simp]:
  "accountsV3 (normalizeActiveIndex s) = accountsV3 s"
  by (simp add: normalizeActiveIndex_def Let_def)

lemma truthy_future: "0 \<le> now \<Longrightarrow> (truthyNumber v \<and> the v > now) = (keepFuture now v \<noteq> None)"
  by (auto simp: truthyNumber_def keepFuture_def split: option.splits)

lemma keepFuture_Some: "keepFuture now v \<noteq> None \<Longrightarrow> keepFuture now v = v"
  by (auto simp: keepFuture_def split: option.splits if_splits)

lemma migrateAccountV1_fields:
  "AccountFields.truncate (migrateAccountV1 now acc) = AccountFields.truncate acc"
  by (simp add: migrateAccountV1_def AccountFields.truncate_def Let_def)

lemma migrateAccountV2_fields:
  "AccountFields.truncate (migrateAccountV2 now acc) = AccountFields.truncate acc"
  by (simp add: migrateAccountV2_def AccountFields.truncate_def Let_def)

lemma migrateAccountV1_times:
  assumes "0 \<le> now"
  shows "rateLimitResetTimesV2 (migrateAccountV1 now acc) =
     (if isRateLimited acc = Some True \<and> keepFuture now (rateLimitResetTime acc) \<noteq> None
      then Some \<lparr>rl_claude = rateLimitResetTime acc, rl_gemini = rateLimitResetTime acc\<rparr>
      else None)"
  using truthy_future [OF assms, of "rateLimitResetTime acc"]
  by (auto simp: migrateAccountV1_def Let_def keepFuture_def split: option.splits)

lemma migrateAccountV2_times:
  assumes "0 \<le> now"
  shows "rateLimitResetTimesV3 (migrateAccountV2 now acc) =
     (let c = keepFuture now (case rateLimitResetTimesV2 acc of None \<Rightarrow> None | Some r \<Rightarrow> rl_claude r);
          g = keepFuture now (case rateLimitResetTimesV2 acc of None \<Rightarrow> None | Some r \<Rightarrow> rl_gemini r)
      in if c = None \<and> g = None then None
         else Some \<lparr>rl3_claude = c, rl3_gemini_antigravity = g, rl3_gemini_cli = None\<rparr>)"
proof -
  let ?oc = "case rateLimitResetTimesV2 acc of None \<Rightarrow> None | Some r \<Rightarrow> rl_claude r"
  let ?og = "case rateLimitResetTimesV2 acc of None \<Rightarrow> None | Some r \<Rightarrow> rl_gemini r"
  note tc = truthy_future [OF assms, of ?oc] and tg = truthy_future [OF assms, of ?og]
  show ?thesis
    unfolding migrateAccountV2_def Let_def tc tg
    using keepFuture_Some [of now ?oc] keepFuture_Some [of now ?og]
    by (cases "keepFuture now ?oc"; cases "keepFuture now ?og") simp_all
qed

lemma keepFuture_mono:
  "now1 \<le> now2 \<Longrightarrow> keepFuture now2 v \<noteq> None \<Longrightarrow> keepFuture now1 v \<noteq> None"
  by (auto simp: keepFuture_def split: option.splits if_splits)

lemma migrate_both_times:
  assumes "0 \<le> now1" "now1 \<le> now2"
  shows "rateLimitResetTimesV3 (migrateAccountV2 now2 (migrateAccountV1 now1 a)) =
     (if isRateLimited a = Some True \<and> keepFuture now2 (rateLimitResetTime a) \<noteq> None
      then Some \<lparr>rl3_claude = rateLimitResetTime a,
                 rl3_gemini_antigravity = rateLimitResetTime a,
                 rl3_gemini_cli = None\<rparr>
      else None)"
proof -
  from assms have n2: "0 \<le> now2" by simp
  show ?thesis
    using keepFuture_mono [OF assms(2), of "rateLimitResetTime a"]
      keepFuture_Some [of now2 "rateLimitResetTime a"]
    by (auto simp: migrateAccountV2_times [OF n2] migrateAccountV1_times [OF assms(1)] Let_def)
       (simp_all add: keepFuture_def)
qed

text \<open>
  Claim C9. Loading a version-1 file migrates each account so that its scalar
  \<^verbatim>\<open>rateLimitResetTime\<close>, when the account is marked rate-limited and the time is still in
  the future, is copied to the claude key and to the gemini key (version 2), the latter
  becoming \<^verbatim>\<open>gemini-antigravity\<close> in the version-3 result; loading a version-2 file renames
  the gemini key to \<^verbatim>\<open>gemini-antigravity\<close> and drops the claude and gemini reset times that
  are not in the future. The other per-account fields (email, refreshToken, projectId,
  managedProjectId, addedAt, lastUsed, lastSwitchReason) are unchanged. The clock values
  are readings of \<^verbatim>\<open>Date.now()\<close>: non-negative, the second not before the first.
\<close>

theorem loadAccounts_migration:
  assumes "0 \<le> now1" and "now1 \<le> now2"
  shows
    "(AccountFields.truncate (migrateAccountV1 now1 a1) = AccountFields.truncate a1
      \<and> rateLimitResetTimesV2 (migrateAccountV1 now1 a1) =
          (if isRateLimited a1 = Some True \<and> keepFuture now1 (rateLimitResetTime a1) \<noteq> None
           then Some \<lparr>rl_claude = rateLimitResetTime a1, rl_gemini = rateLimitResetTime a1\<rparr>
           else None))
     \<and> (AccountFields.truncate (migrateAccountV2 now2 a2) = AccountFields.truncate a2
        \<and> rateLimitResetTimesV3 (migrateAccountV2 now2 a2) =
            (let c = keepFuture now2 (case rateLimitResetTimesV2 a2 of None \<Rightarrow> None | Some r \<Rightarrow> rl_claude r);
                 g = keepFuture now2 (case rateLimitResetTimesV2 a2 of None \<Rightarrow> None | Some r \<Rightarrow> rl_gemini r)
             in if c = None \<and> g = None then None
                else Some \<lparr>rl3_claude = c, rl3_gemini_antigravity = g, rl3_gemini_cli = None\<rparr>))
     \<and> (\<exists>s. loadAccounts now1 now2 (FileV1 v1) = (Some (normalizeActiveIndex s), Some s)
            \<and> accountsV3 s = map (\<lambda>a. migrateAccountV2 now2 (migrateAccountV1 now1 a)) (accountsV1 v1))
     \<and> (AccountFields.truncate (migrateAccountV2 now2 (migrateAccountV1 now1 a1)) = AccountFields.truncate a1
        \<and> rateLimitResetTimesV3 (migrateAccountV2 now2 (migrateAccountV1 now1 a1)) =
            (if isRateLimited a1 = Some True \<and> keepFuture now2 (rateLimitResetTime a1) \<noteq> None
             then Some \<lparr>rl3_claude = rateLimitResetTime a1,
                        rl3_gemini_antigravity = rateLimitResetTime a1,
                        rl3_gemini_cli = None\<rparr>
             else None))
     \<and> (\<exists>s. loadAccounts now1 now2 (FileV2 v2) = (Some (normalizeActiveIndex s), Some s)
            \<and> accountsV3 s = map (migrateAccountV2 now2) (accountsV2 v2))"
proof -
  from assms have n2: "0 \<le> now2" by simp
  have p1: "\<exists>s. loadAccounts now1 now2 (FileV1 v1) = (Some (normalizeActiveIndex s), Some s)
            \<and> accountsV3 s = map (\<lambda>a. migrateAccountV2 now2 (migrateAccountV1 now1 a)) (accountsV1 v1)"
    by (simp add: loadAccounts_def Let_def migrateV2ToV3_def migrateV1ToV2_def comp_def)
  have p2: "\<exists>s. loadAccounts now1 now2 (FileV2 v2) = (Some (normalizeActiveIndex s), Some s)
            \<and> accountsV3 s = map (migrateAccountV2 now2) (accountsV2 v2)"
    by (simp add: loadAccounts_def Let_def migrateV2ToV3_def)
  show ?thesis
    using p1 p2 migrate_both_times [OF assms, of a1]
      migrateAccountV1_times [OF assms(1), of a1] migrateAccountV2_times [OF n2, of a2]
    by (simp only: migrateAccountV1_fields migrateAccountV2_fields)
qed

definition oldAccount :: AccountMetadataV1 where
  "oldAccount =
     \<lparr>meta_email = Some ''a@example.org'', meta_refreshToken = ''rt'',
      meta_projectId = Some ''proj'', meta_managedProjectId = None,
      meta_addedAt = 10, meta_lastUsed = 20, meta_lastSwitchReason = Some RateLimit,
      isRateLimited = Some True, rateLimitResetTime = Some 9000\<rparr>"

definition v2Account :: AccountMetadata where
  "v2Account =
     \<lparr>meta_email = None, meta_refreshToken = ''rt2'',
      meta_projectId = None, meta_managedProjectId = Some ''managed'',
      meta_addedAt = 11, meta_lastUsed = 21, meta_lastSwitchReason = None,
      rateLimitResetTimesV2 = Some \<lparr>rl_claude = Some 400, rl_gemini = Some 7000\<rparr>\<rparr>"

theorem loadAccounts_migration_witness:
  "(0::int) \<le> 1000 \<and> (1000::int) \<le> 1001
   \<and> rateLimitResetTimesV2 (migrateAccountV1 1000 oldAccount) =
        Some \<lparr>rl_claude = Some 9000, rl_gemini = Some 9000\<rparr>
   \<and> rateLimitResetTimesV3 (migrateAccountV2 1001 v2Account) =
        Some \<lparr>rl3_claude = None, rl3_gemini_antigravity = Some 7000, rl3_gemini_cli = None\<rparr>
   \<and> meta_email (migrateAccountV2 1001 (migrateAccountV1 1000 oldAccount)) = Some ''a@example.org''
   \<and> rateLimitResetTimesV3 (migrateAccountV2 1001 (migrateAccountV1 1000 oldAccount)) =
        Some \<lparr>rl3_claude = Some 9000, rl3_gemini_antigravity = Some 9000, rl3_gemini_cli = None\<rparr>"
proof -
  have h1: "(0::int) \<le> 1000" and h2: "(1000::int) \<le> 1001" by simp_all
  note m = loadAccounts_migration [OF h1 h2, of oldAccount v2Account
      "\<lparr>accountsV1 = [oldAccount], activeIndexV1 = Some 0\<rparr>"
      "\<lparr>accountsV2 = [v2Account], activeIndexV2 = Some 0\<rparr>"]
  have k: "keepFuture 1000 (Some 9000) = Some 9000"
    "keepFuture 1001 (Some 9000) = Some 9000"
    "isRateLimited oldAccount = Some True" "rateLimitResetTime oldAccount = Some 9000"
    "rateLimitResetTimesV2 v2Account = Some \<lparr>rl_claude = Some 400, rl_gemini = Some 7000\<rparr>"
    "keepFuture 1001 (Some 400) = None" "keepFuture 1001 (Some 7000) = Some 7000"
    "meta_email oldAccount = Some ''a@example.org''"
    by (simp_all add: keepFuture_def oldAccount_def v2Account_def)
  have e: "meta_email (migrateAccountV2 1001 (migrateAccountV1 1000 oldAccount)) =
           meta_email (AccountFields.truncate (migrateAccountV2 1001 (migrateAccountV1 1000 oldAccount)))"
    by (simp add: AccountFields.truncate_def)
  from m have "AccountFields.truncate (migrateAccountV2 1001 (migrateAccountV1 1000 oldAccount))
      = AccountFields.truncate oldAccount" by (elim conjE)
  with e have e': "meta_email (migrateAccountV2 1001 (migrateAccountV1 1000 oldAccount)) = Some ''a@example.org''"
    by (simp add: AccountFields.truncate_def k)
  from m h1 h2 e' show ?thesis
    by (simp add: k Let_def)
qed

section \<open>Signature cache (cache/signature-cache.js)\<close>

text \<open>
  The in-memory \<^verbatim>\<open>Map\<close> and the \<^verbatim>\<open>entries\<close> object of the cache file are maps from
  keys to entries. \<^verbatim>\<open>Date.now()\<close> is passed in as \<open>now\<close> (milliseconds). The cache
  file is part of the state of the outside world: absent, unparsable, or a parsed file.
  Every file-system call of \<^verbatim>\<open>saveToDisk\<close> stands inside one \<^verbatim>\<open>try\<close>; the flag
  \<open>writable\<close> says whether they succeed, and a failure returns false and changes
  nothing.
\<close>

record CacheEntry =
  entryValue :: string
  timestamp :: int
  thinkingText :: "string option"
  textPreview :: "string option"
  toolIds :: "string list option"

record DiskEntry =
  diskValue :: string
  diskTimestamp :: int

record CacheStats =
  memoryHits :: nat
  diskHits :: nat
  misses :: nat
  writes :: nat

record CacheFileData =
  version :: string
  memory_ttl_seconds :: int
  disk_ttl_seconds :: int
  entries :: "string \<Rightarrow> DiskEntry option"
  statistics :: "CacheStats \<times> int"

datatype CacheFile = NoFile | Unparsable | Parsed CacheFileData

record SignatureCache =
  cache :: "string \<Rightarrow> CacheEntry option"
  memoryTtlMs :: int
  diskTtlMs :: int
  writeIntervalMs :: int
  enabled :: bool
  dirty :: bool
  stats :: CacheStats

definition store_sig :: "int \<Rightarrow> SignatureCache \<Rightarrow> string \<Rightarrow> string \<Rightarrow> SignatureCache" where
  "store_sig now c key signature =
     (if \<not> enabled c then c
      else c\<lparr>cache := (cache c)(key \<mapsto>
                 \<lparr>entryValue = signature, timestamp = now, thinkingText = None,
                  textPreview = None, toolIds = None\<rparr>),
             dirty := True\<rparr>)"

definition retrieve :: "int \<Rightarrow> SignatureCache \<Rightarrow> string \<Rightarrow> string option \<times> SignatureCache" where
  "retrieve now c key =
     (if \<not> enabled c then (None, c)
      else
        (case cache c key of
           Some entry \<Rightarrow>
             (let age = now - timestamp entry
              in if age \<le> memoryTtlMs c
                 then (Some (entryValue entry),
                       c\<lparr>stats := (stats c)\<lparr>memoryHits := memoryHits (stats c) + 1\<rparr>\<rparr>)
                 else
                   (let c1 = c\<lparr>cache := (cache c)(key := None)\<rparr>
                    in (None, c1\<lparr>stats := (stats c1)\<lparr>misses := misses (stats c1) + 1\<rparr>\<rparr>)))
         | None \<Rightarrow> (None, c\<lparr>stats := (stats c)\<lparr>misses := misses (stats c) + 1\<rparr>\<rparr>)))"

definition has :: "int \<Rightarrow> SignatureCache \<Rightarrow> string \<Rightarrow> bool" where
  "has now c key =
     (if \<not> enabled c then False
      else (case cache c key of
              None \<Rightarrow> False
            | Some entry \<Rightarrow> now - timestamp entry \<le> memoryTtlMs c))"

definition saveToDisk ::
  "int \<Rightarrow> bool \<Rightarrow> SignatureCache \<Rightarrow> CacheFile \<Rightarrow> bool \<times> SignatureCache \<times> CacheFile" where
  "saveToDisk now writable c file =
     (if \<not> writable then (False, c, file)
      else
        (let existingEntries = (case file of Parsed filedata \<Rightarrow> entries filedata | _ \<Rightarrow> (\<lambda>k. None));
             validDiskEntries =
               (\<lambda>k. case existingEntries k of
                       None \<Rightarrow> None
                     | Some entry \<Rightarrow>
                         if now - diskTimestamp entry \<le> diskTtlMs c then Some entry else None);
             memoryEntries =
               (\<lambda>k. case cache c k of
                       None \<Rightarrow> None
                     | Some entry \<Rightarrow>
                         Some \<lparr>diskValue = entryValue entry, diskTimestamp = timestamp entry\<rparr>);
             mergedEntries = validDiskEntries ++ memoryEntries;
             cacheData =
               \<lparr>version = ''1.0'',
                memory_ttl_seconds = memoryTtlMs c div 1000,
                disk_ttl_seconds = diskTtlMs c div 1000,
                entries = mergedEntries,
                statistics = ((stats c)\<lparr>writes := writes (stats c) + 1\<rparr>, now)\<rparr>
         in (True,
             c\<lparr>stats := (stats c)\<lparr>writes := writes (stats c) + 1\<rparr>, dirty := False\<rparr>,
             Parsed cacheData)))"

definition flush ::
  "int \<Rightarrow> bool \<Rightarrow> SignatureCache \<Rightarrow> CacheFile \<Rightarrow> bool \<times> SignatureCache \<times> CacheFile" where
  "flush now writable c file =
     (if \<not> enabled c then (True, c, file) else saveToDisk now writable c file)"

definition cleanupExpired :: "int \<Rightarrow> SignatureCache \<Rightarrow> SignatureCache" where
  "cleanupExpired now c =
     c\<lparr>cache := (\<lambda>k. case cache c k of
                        None \<Rightarrow> None
                      | Some entry \<Rightarrow>
                          if now - timestamp entry > memoryTtlMs c then None else Some entry)\<rparr>"

definition loadFromDisk :: "int \<Rightarrow> SignatureCache \<Rightarrow> CacheFile \<Rightarrow> SignatureCache" where
  "loadFromDisk now c file =
     (case file of
        Parsed filedata \<Rightarrow>
          if version filedata \<noteq> ''1.0'' then c
          else c\<lparr>cache := (\<lambda>k. case entries filedata k of
                                  None \<Rightarrow> cache c k
                                | Some entry \<Rightarrow>
                                    if now - diskTimestamp entry \<le> diskTtlMs c
                                    then Some \<lparr>entryValue = diskValue entry,
                                               timestamp = diskTimestamp entry,
                                               thinkingText = None, textPreview = None,
                                               toolIds = None\<rparr>
                                    else cache c k)\<rparr>
      | _ \<Rightarrow> c)"

text \<open>The constructor: the configured seconds become milliseconds, and an enabled cache
  starts from the entries of the file.\<close>

definition newSignatureCache :: "int \<Rightarrow> bool \<Rightarrow> int \<Rightarrow> int \<Rightarrow> int \<Rightarrow> CacheFile \<Rightarrow> SignatureCache" where
  "newSignatureCache now config_enabled memory_ttl disk_ttl write_interval file =
     (let c = \<lparr>cache = (\<lambda>k. None),
                memoryTtlMs = memory_ttl * 1000,
                diskTtlMs = disk_ttl * 1000,
                writeIntervalMs = write_interval * 1000,
                enabled = config_enabled,
                dirty = False,
                stats = \<lparr>memoryHits = 0, diskHits = 0, misses = 0, writes = 0\<rparr>\<rparr>
      in if enabled c then loadFromDisk now c file else c)"

lemma flush_cache:
  "cache (fst (snd (flush t w c file))) = cache c"
  "enabled (fst (snd (flush t w c file))) = enabled c"
  "memoryTtlMs (fst (snd (flush t w c file))) = memoryTtlMs c"
  by (simp_all add: flush_def saveToDisk_def Let_def)

lemma flush_writes_entry:
  assumes "enabled c" and "w" and "cache c key = Some e"
  shows "\<exists>filedata. snd (snd (flush t w c file)) = Parsed filedata \<and>
           entries filedata key = Some \<lparr>diskValue = entryValue e, diskTimestamp = timestamp e\<rparr>"
  using assms by (simp add: flush_def saveToDisk_def Let_def map_add_def)

text \<open>
  Claim C3, as the code has it. In an enabled cache, \<^verbatim>\<open>retrieve(key)\<close> at most
  \<^verbatim>\<open>memory_ttl\<close> after \<^verbatim>\<open>store(key, signature)\<close> returns the stored signature, whether or
  not a \<^verbatim>\<open>flush()\<close> happened in between. Once the entry is older than \<^verbatim>\<open>memory_ttl\<close>,
  \<^verbatim>\<open>retrieve(key)\<close> returns null and deletes the entry from memory, also after a flush that
  succeeded and wrote the entry into the cache file and whatever the disk TTL is:
  \<^verbatim>\<open>retrieve\<close> reads the memory map only.
\<close>

theorem store_retrieve_contract:
  assumes "enabled c"
  shows
    "let c1 = store_sig now c key signature;
         flushed = flush t writable c1 file;
         c2 = fst (snd flushed);
         file2 = snd (snd flushed)
     in (now' - now \<le> memoryTtlMs c \<longrightarrow>
           fst (retrieve now' c1 key) = Some signature \<and>
           fst (retrieve now' c2 key) = Some signature)
      \<and> (now' - now > memoryTtlMs c \<longrightarrow>
           fst (retrieve now' c1 key) = None \<and>
           fst (retrieve now' c2 key) = None \<and>
           cache (snd (retrieve now' c2 key)) key = None \<and>
           (writable \<longrightarrow>
              (\<exists>filedata. file2 = Parsed filedata \<and>
                 entries filedata key = Some \<lparr>diskValue = signature, diskTimestamp = now\<rparr>)))"
proof -
  define c1 where "c1 = store_sig now c key signature"
  have e1: "enabled c1" and m1: "memoryTtlMs c1 = memoryTtlMs c"
    and k1: "cache c1 key = Some \<lparr>entryValue = signature, timestamp = now, thinkingText = None,
                  textPreview = None, toolIds = None\<rparr>"
    using assms by (simp_all add: c1_def store_sig_def)
  define c2 where "c2 = fst (snd (flush t writable c1 file))"
  have e2: "enabled c2" and m2: "memoryTtlMs c2 = memoryTtlMs c"
    and k2: "cache c2 key = Some \<lparr>entryValue = signature, timestamp = now, thinkingText = None,
                  textPreview = None, toolIds = None\<rparr>"
    by (simp_all add: c2_def flush_cache e1 m1 k1)
  have w: "writable \<Longrightarrow> \<exists>filedata. snd (snd (flush t writable c1 file)) = Parsed filedata \<and>
                 entries filedata key = Some \<lparr>diskValue = signature, diskTimestamp = now\<rparr>"
    using flush_writes_entry [OF e1 _ k1, of writable t "file"] by simp
  have r1: "now' - now \<le> memoryTtlMs c \<Longrightarrow> fst (retrieve now' c1 key) = Some signature"
    and r2: "now' - now \<le> memoryTtlMs c \<Longrightarrow> fst (retrieve now' c2 key) = Some signature"
    and r3: "now' - now > memoryTtlMs c \<Longrightarrow> fst (retrieve now' c1 key) = None"
    and r4: "now' - now > memoryTtlMs c \<Longrightarrow> fst (retrieve now' c2 key) = None"
    and r5: "now' - now > memoryTtlMs c \<Longrightarrow> cache (snd (retrieve now' c2 key)) key = None"
    by (simp_all add: retrieve_def e1 e2 m1 m2 k1 k2 Let_def)
  show ?thesis
    unfolding Let_def c1_def [symmetric] c2_def [symmetric]
    using r1 r2 r3 r4 r5 w by blast
qed

definition defaultCache :: SignatureCache where
  "defaultCache = newSignatureCache 0 True 3600 172800 60 NoFile"

text \<open>
  The claim as the specification words it fails on the default configuration (memory TTL
  one hour, disk TTL 48 hours): a signature stored at time 0 and flushed to the file at
  4000000 ms is in the file, is younger than the disk TTL, and \<^verbatim>\<open>retrieve\<close> at 4000001 ms
  returns null.
\<close>

theorem retrieve_after_flush_misses:
  "memoryTtlMs defaultCache < 4000001 - 0 \<and> 4000001 - 0 \<le> diskTtlMs defaultCache
   \<and> fst (flush 4000000 True (store_sig 0 defaultCache ''k'' ''signature'') NoFile) = True
   \<and> fst (retrieve 4000001
        (fst (snd (flush 4000000 True (store_sig 0 defaultCache ''k'' ''signature'') NoFile)))
        ''k'') = None
   \<and> fst (retrieve 4000001
        (fst (snd (flush 4000000 True (store_sig 0 defaultCache ''k'' ''signature'') NoFile)))
        ''k'') \<noteq> Some ''signature''"
  by (simp add: defaultCache_def newSignatureCache_def loadFromDisk_def store_sig_def
        flush_def saveToDisk_def retrieve_def Let_def)

theorem store_retrieve_contract_witness:
  "enabled defaultCache
   \<and> fst (retrieve 3600000 (store_sig 0 defaultCache ''k'' ''signature'') ''k'') = Some ''signature''
   \<and> fst (retrieve 3600000
        (fst (snd (flush 1000 True (store_sig 0 defaultCache ''k'' ''signature'') NoFile)))
        ''k'') = Some ''signature''
   \<and> fst (retrieve 3600001
        (fst (snd (flush 1000 True (store_sig 0 defaultCache ''k'' ''signature'') NoFile)))
        ''k'') = None
   \<and> (\<exists>filedata.
         snd (snd (flush 1000 True (store_sig 0 defaultCache ''k'' ''signature'') NoFile)) = Parsed filedata
         \<and> entries filedata ''k'' = Some \<lparr>diskValue = ''signature'', diskTimestamp = 0\<rparr>)"
proof -
  have en: "enabled defaultCache" and ttl: "memoryTtlMs defaultCache = 3600000"
    by (simp_all add: defaultCache_def newSignatureCache_def loadFromDisk_def)
  note a = store_retrieve_contract [OF en, of 0 "''k''" "''signature''" 1000 True NoFile 3600000,
      unfolded Let_def ttl]
  note b = store_retrieve_contract [OF en, of 0 "''k''" "''signature''" 1000 True NoFile 3600001,
      unfolded Let_def ttl]
  from a b en show ?thesis by simp
qed

section \<open>Request preparation (request.js, transform/claude.js)\<close>

subsection \<open>JavaScript strings\<close>

text \<open>
  Strings are lists of 8-bit characters. \<^verbatim>\<open>toLowerCase\<close> and \<^verbatim>\<open>trim\<close> are modelled on
  ASCII: the letters A to Z, and the white space characters tab, line feed, vertical tab,
  form feed, carriage return and space.
\<close>

definition lowerChar :: "char \<Rightarrow> char" where
  "lowerChar c =
     (case map_of (zip ''ABCDEFGHIJKLMNOPQRSTUVWXYZ'' ''abcdefghijklmnopqrstuvwxyz'') c of
        Some l \<Rightarrow> l
      | None \<Rightarrow> c)"

definition toLowerCase :: "string \<Rightarrow> string" where
  "toLowerCase s = map lowerChar s"

definition isWhiteSpace :: "char \<Rightarrow> bool" where
  "isWhiteSpace c = (c \<in> set [CHR 0x09, CHR 0x0A, CHR 0x0B, CHR 0x0C, CHR 0x0D, CHR 0x20])"

definition trim :: "string \<Rightarrow> string" where
  "trim s = rev (dropWhile isWhiteSpace (rev (dropWhile isWhiteSpace s)))"

fun startsWith :: "string \<Rightarrow> string \<Rightarrow> bool" where
  "startsWith s [] = True"
| "startsWith [] (p # ps) = False"
| "startsWith (c # cs) (p # ps) = (c = p \<and> startsWith cs ps)"

fun js_includes :: "string \<Rightarrow> string \<Rightarrow> bool" where
  "js_includes [] sub = (sub = [])"
| "js_includes (c # cs) sub = (startsWith (c # cs) sub \<or> js_includes cs sub)"

subsection \<open>Model predicates (transform/claude.js)\<close>


definition isClaudeModel :: "string \<Rightarrow> bool" where
  "isClaudeModel model = js_includes (toLowerCase model) ''claude''"

definition isClaudeThinkingModel :: "string \<Rightarrow> bool" where
  "isClaudeThinkingModel model =
     (let lower = toLowerCase model
      in js_includes lower ''claude'' \<and> js_includes lower ''thinking'')"

subsection \<open>The thinking-configuration step of \<^verbatim>\<open>prepareAntigravityRequest\<close>\<close>


datatype WireThinkingConfig =
    SnakeCaseConfig (include_thoughts: bool) (thinking_budget: "int option")
  | LevelConfig "bool option" string
  | BudgetConfig "bool option" "int option"
  | CallerConfig string


definition nullish :: "'a option \<Rightarrow> 'a option \<Rightarrow> 'a option" where
  "nullish a b = (case a of Some v \<Rightarrow> Some v | None \<Rightarrow> b)"






lemma sonnet_is_claude_thinking: "isClaudeThinkingModel ''claude-sonnet-4-5-thinking''"
  by (simp add: isClaudeThinkingModel_def toLowerCase_def lowerChar_def Let_def)



subsection \<open>Conversations in Gemini wire format\<close>

text \<open>
  A request body is open-typed JSON. The model keeps the fields that the code reads and
  the tests it makes on them: an element of \<^verbatim>\<open>contents\<close> or of \<^verbatim>\<open>parts\<close> that is not an
  object is opaque; \<^verbatim>\<open>parts\<close> is \<open>None\<close> when it is not an array; a field read with
  \<^verbatim>\<open>typeof x === "string"\<close> is \<open>None\<close> when it is not a string; \<^verbatim>\<open>thought\<close> is true when
  \<^verbatim>\<open>part.thought === true\<close>; \<^verbatim>\<open>tool_use\<close> and \<^verbatim>\<open>toolUse\<close> are true when the field is
  truthy. Everything else that a part carries is in \<open>otherFields\<close>.
\<close>

record FunctionCall =
  callId :: "string option"
  callName :: "string option"
  callArgs :: string

record FunctionResponse =
  responseId :: "string option"
  responseName :: "string option"
  responseBody :: string

record PartFields =
  partText :: "string option"
  thinking :: "string option"
  thought :: bool
  partType :: "string option"
  thoughtSignature :: "string option"
  signature :: "string option"
  functionCall :: "FunctionCall option"
  functionResponse :: "FunctionResponse option"
  tool_use :: bool
  toolUse :: bool
  otherFields :: string

datatype Part = OpaquePart string | ObjPart PartFields

record ContentFields =
  role :: "string option"
  cparts :: "Part list option"
  otherContentFields :: string

datatype Content = OpaqueContent string | ObjContent ContentFields

text \<open>A string is falsy when it is absent or empty (\<^verbatim>\<open>!call.id\<close>).\<close>

definition falsy :: "string option \<Rightarrow> bool" where
  "falsy v = (v = None \<or> v = Some '''')"

fun string_of_nat :: "nat \<Rightarrow> string" where
  "string_of_nat n =
     (if n < 10 then [''0123456789'' ! n]
      else string_of_nat (n div 10) @ [''0123456789'' ! (n mod 10)])"

declare string_of_nat.simps [simp del]

subsection \<open>The two tool-id pairing passes of \<^verbatim>\<open>prepareAntigravityRequest\<close>\<close>

text \<open>
  Both passes are \<^verbatim>\<open>contents.map\<close> over \<^verbatim>\<open>parts.map\<close> with a callback that updates
  \<^verbatim>\<open>toolCallCounter\<close> and the map \<^verbatim>\<open>pendingCallIdsByName\<close>; \<open>mapAccum\<close> is \<^verbatim>\<open>map\<close> with
  that state threaded from left to right.
\<close>

fun mapAccum :: "('s \<Rightarrow> 'a \<Rightarrow> 'b \<times> 's) \<Rightarrow> 's \<Rightarrow> 'a list \<Rightarrow> 'b list \<times> 's" where
  "mapAccum f s [] = ([], s)"
| "mapAccum f s (x # xs) =
     (let (y, s1) = f s x; (ys, s2) = mapAccum f s1 xs in (y # ys, s2))"

type_synonym PairingState = "nat \<times> (string \<Rightarrow> string list)"

definition assignCallId :: "PairingState \<Rightarrow> Part \<Rightarrow> Part \<times> PairingState" where
  "assignCallId st part =
     (case part of
        OpaquePart v \<Rightarrow> (part, st)
      | ObjPart p \<Rightarrow>
          (case functionCall p of
             None \<Rightarrow> (part, st)
           | Some call0 \<Rightarrow>
               (let (toolCallCounter, pendingCallIdsByName) = st;
                    (call, counter1) =
                      (if falsy (callId call0)
                       then (call0\<lparr>callId := Some (''tool-call-'' @ string_of_nat (toolCallCounter + 1))\<rparr>,
                             toolCallCounter + 1)
                       else (call0, toolCallCounter));
                    nameKey = (case callName call of
                                 Some n \<Rightarrow> n
                               | None \<Rightarrow> ''tool-'' @ string_of_nat counter1);
                    queue = pendingCallIdsByName nameKey @ [the (callId call)]
                in (ObjPart (p\<lparr>functionCall := Some call\<rparr>),
                    (counter1, pendingCallIdsByName(nameKey := queue))))))"

definition overParts ::
  "('s \<Rightarrow> Part \<Rightarrow> Part \<times> 's) \<Rightarrow> 's \<Rightarrow> Content \<Rightarrow> Content \<times> 's" where
  "overParts f st content =
     (case content of
        OpaqueContent v \<Rightarrow> (content, st)
      | ObjContent c \<Rightarrow>
          (case cparts c of
             None \<Rightarrow> (content, st)
           | Some ps \<Rightarrow>
               (let (newParts, st1) = mapAccum f st ps
                in (ObjContent (c\<lparr>cparts := Some newParts\<rparr>), st1))))"

definition firstPass :: "Content list \<Rightarrow> Content list \<times> PairingState" where
  "firstPass contents = mapAccum (overParts assignCallId) (0, \<lambda>name. []) contents"

definition matchResponseId ::
  "(string \<Rightarrow> string list) \<Rightarrow> Part \<Rightarrow> Part \<times> (string \<Rightarrow> string list)" where
  "matchResponseId pendingCallIdsByName part =
     (case part of
        OpaquePart v \<Rightarrow> (part, pendingCallIdsByName)
      | ObjPart p \<Rightarrow>
          (case functionResponse p of
             None \<Rightarrow> (part, pendingCallIdsByName)
           | Some resp \<Rightarrow>
               (if falsy (responseId resp) \<and> responseName resp \<noteq> None
                then
                  (let queue = pendingCallIdsByName (the (responseName resp))
                   in if length queue > 0
                      then (ObjPart (p\<lparr>functionResponse := Some (resp\<lparr>responseId := Some (hd queue)\<rparr>)\<rparr>),
                            pendingCallIdsByName(the (responseName resp) := tl queue))
                      else (part, pendingCallIdsByName))
                else (part, pendingCallIdsByName))))"

definition secondPass ::
  "(string \<Rightarrow> string list) \<Rightarrow> Content list \<Rightarrow> Content list \<times> (string \<Rightarrow> string list)" where
  "secondPass pendingCallIdsByName contents =
     mapAccum (overParts matchResponseId) pendingCallIdsByName contents"

definition pairToolIds :: "Content list \<Rightarrow> Content list" where
  "pairToolIds contents =
     (let (contents1, st) = firstPass contents
      in fst (secondPass (snd st) contents1))"

subsection \<open>Facts about \<open>mapAccum\<close>\<close>

lemma mapAccum_Cons:
  "mapAccum f s (x # xs) =
     (fst (f s x) # fst (mapAccum f (snd (f s x)) xs), snd (mapAccum f (snd (f s x)) xs))"
  by (simp add: case_prod_beta Let_def)

declare mapAccum.simps(2) [simp del]

lemma mapAccum_append:
  "mapAccum f s (xs @ ys) =
     (fst (mapAccum f s xs) @ fst (mapAccum f (snd (mapAccum f s xs)) ys),
      snd (mapAccum f (snd (mapAccum f s xs)) ys))"
proof (induction xs arbitrary: s)
  case Nil
  then show ?case by simp
next
  case (Cons x xs)
  show ?case
    by (simp only: append_Cons mapAccum_Cons Cons.IH fst_conv snd_conv)
qed

lemma mapAccum_snoc:
  "mapAccum f s (xs @ [x]) =
     (fst (mapAccum f s xs) @ [fst (f (snd (mapAccum f s xs)) x)],
      snd (f (snd (mapAccum f s xs)) x))"
  by (simp add: mapAccum_append mapAccum_Cons)

lemma mapAccum_length [simp]: "length (fst (mapAccum f s xs)) = length xs"
  by (induction xs arbitrary: s) (simp_all add: mapAccum_Cons)

text \<open>Flattening a conversation into its parts, its function calls and its responses.\<close>

definition partsOf :: "Content \<Rightarrow> Part list" where
  "partsOf content =
     (case content of
        OpaqueContent v \<Rightarrow> []
      | ObjContent c \<Rightarrow> (case cparts c of None \<Rightarrow> [] | Some ps \<Rightarrow> ps))"

definition allParts :: "Content list \<Rightarrow> Part list" where
  "allParts contents = concat (map partsOf contents)"

definition callOf :: "Part \<Rightarrow> FunctionCall option" where
  "callOf part = (case part of OpaquePart v \<Rightarrow> None | ObjPart p \<Rightarrow> functionCall p)"

definition responseOf :: "Part \<Rightarrow> FunctionResponse option" where
  "responseOf part = (case part of OpaquePart v \<Rightarrow> None | ObjPart p \<Rightarrow> functionResponse p)"

definition callsOf :: "Content list \<Rightarrow> FunctionCall list" where
  "callsOf contents = List.map_filter callOf (allParts contents)"

definition responsesOf :: "Content list \<Rightarrow> FunctionResponse list" where
  "responsesOf contents = List.map_filter responseOf (allParts contents)"

lemma partsOf_overParts:
  "partsOf (fst (overParts f st content)) = fst (mapAccum f st (partsOf content))"
  "snd (overParts f st content) = snd (mapAccum f st (partsOf content))"
  by (auto simp: overParts_def partsOf_def case_prod_beta
      split: Content.splits option.splits)

lemma allParts_mapAccum:
  "allParts (fst (mapAccum (overParts f) st contents)) = fst (mapAccum f st (allParts contents))
   \<and> snd (mapAccum (overParts f) st contents) = snd (mapAccum f st (allParts contents))"
proof (induction contents arbitrary: st)
  case Nil
  then show ?case by (simp add: allParts_def)
next
  case (Cons c cs)
  have a: "allParts (c # cs) = partsOf c @ allParts cs" by (simp add: allParts_def)
  show ?case
    unfolding a mapAccum_append mapAccum_Cons
    using Cons.IH [of "snd (overParts f st c)"]
    by (simp add: allParts_def partsOf_overParts)
qed

subsection \<open>The first pass on the function calls of the conversation\<close>

text \<open>What the callback of the first pass does to the call of a part.\<close>

definition callStep :: "PairingState \<Rightarrow> FunctionCall \<Rightarrow> FunctionCall \<times> PairingState" where
  "callStep st call0 =
     (let counter1 = (if falsy (callId call0) then fst st + 1 else fst st);
          call = (if falsy (callId call0)
                  then call0\<lparr>callId := Some (''tool-call-'' @ string_of_nat (fst st + 1))\<rparr>
                  else call0);
          nameKey = (case callName call0 of
                       Some n \<Rightarrow> n
                     | None \<Rightarrow> ''tool-'' @ string_of_nat counter1)
      in (call, (counter1, (snd st)(nameKey := snd st nameKey @ [the (callId call)]))))"

lemma assignCallId_call:
  "callOf part = Some call0 \<Longrightarrow>
     callOf (fst (assignCallId st part)) = Some (fst (callStep st call0)) \<and>
     snd (assignCallId st part) = snd (callStep st call0)"
  by (cases part; cases st)
     (auto simp: callOf_def assignCallId_def callStep_def Let_def split: option.splits)

lemma assignCallId_nocall:
  "callOf part = None \<Longrightarrow> assignCallId st part = (part, st)"
  by (cases part) (auto simp: callOf_def assignCallId_def split: option.splits)

lemma map_filter_Cons:
  "List.map_filter f (x # xs) = (case f x of None \<Rightarrow> List.map_filter f xs | Some y \<Rightarrow> y # List.map_filter f xs)"
  by (simp add: List.map_filter_def split: option.splits)

lemma calls_mapAccum:
  "List.map_filter callOf (fst (mapAccum assignCallId st ps)) =
     fst (mapAccum callStep st (List.map_filter callOf ps))
   \<and> snd (mapAccum assignCallId st ps) = snd (mapAccum callStep st (List.map_filter callOf ps))"
proof (induction ps arbitrary: st)
  case Nil
  then show ?case by (simp add: List.map_filter_def)
next
  case (Cons p ps)
  show ?case
  proof (cases "callOf p")
    case None
    with Cons.IH [of st] show ?thesis
      by (simp add: map_filter_Cons assignCallId_nocall mapAccum_Cons)
  next
    case (Some call0)
    from assignCallId_call [OF Some, of st] Cons.IH [of "snd (callStep st call0)"] Some
    show ?thesis
      by (simp add: map_filter_Cons mapAccum_Cons)
  qed
qed

text \<open>
  The closed form of the first pass. \<open>lacking pre\<close> counts the calls without an id
  among the calls \<open>pre\<close> that come earlier in the conversation.
\<close>

definition lacking :: "FunctionCall list \<Rightarrow> nat" where
  "lacking calls = length (filter (\<lambda>c. falsy (callId c)) calls)"

definition idAfter :: "FunctionCall list \<Rightarrow> FunctionCall \<Rightarrow> string" where
  "idAfter pre c =
     (if falsy (callId c) then ''tool-call-'' @ string_of_nat (lacking pre + 1)
      else the (callId c))"

definition keyAfter :: "FunctionCall list \<Rightarrow> FunctionCall \<Rightarrow> string" where
  "keyAfter pre c =
     (case callName c of
        Some n \<Rightarrow> n
      | None \<Rightarrow> ''tool-'' @ string_of_nat (lacking (pre @ [c])))"

definition pushes :: "FunctionCall list \<Rightarrow> (string \<times> string) list" where
  "pushes calls =
     map (\<lambda>i. (keyAfter (take i calls) (calls ! i), idAfter (take i calls) (calls ! i)))
       [0..<length calls]"

definition queueFor :: "FunctionCall list \<Rightarrow> string \<Rightarrow> string list" where
  "queueFor calls name = map snd (filter (\<lambda>e. fst e = name) (pushes calls))"

lemma lacking_snoc: "lacking (cs @ [c]) = (if falsy (callId c) then lacking cs + 1 else lacking cs)"
  by (simp add: lacking_def)

lemma pushes_snoc: "pushes (cs @ [c]) = pushes cs @ [(keyAfter cs c, idAfter cs c)]"
proof -
  have "map (\<lambda>i. (keyAfter (take i (cs @ [c])) ((cs @ [c]) ! i),
                  idAfter (take i (cs @ [c])) ((cs @ [c]) ! i))) [0..<length cs]
      = map (\<lambda>i. (keyAfter (take i cs) (cs ! i), idAfter (take i cs) (cs ! i))) [0..<length cs]"
    by (rule map_cong) (simp_all add: nth_append)
  then show ?thesis by (simp add: pushes_def)
qed

lemma callStep_closed:
  "mapAccum callStep (0, \<lambda>name. []) calls =
     (map (\<lambda>i. (calls ! i)\<lparr>callId := Some (idAfter (take i calls) (calls ! i))\<rparr>) [0..<length calls],
      (lacking calls, queueFor calls))"
proof (induction calls rule: rev_induct)
  case Nil
  then show ?case by (simp add: lacking_def queueFor_def pushes_def fun_eq_iff)
next
  case (snoc c cs)
  have m: "map (\<lambda>i. ((cs @ [c]) ! i)\<lparr>callId := Some (idAfter (take i (cs @ [c])) ((cs @ [c]) ! i))\<rparr>) [0..<length cs]
         = map (\<lambda>i. (cs ! i)\<lparr>callId := Some (idAfter (take i cs) (cs ! i))\<rparr>) [0..<length cs]"
    by (rule map_cong) (simp_all add: nth_append)
  have step: "callStep (lacking cs, queueFor cs) c =
      (c\<lparr>callId := Some (idAfter cs c)\<rparr>, (lacking (cs @ [c]), queueFor (cs @ [c])))"
    by (auto simp: callStep_def Let_def idAfter_def keyAfter_def lacking_snoc queueFor_def
        pushes_snoc fun_eq_iff falsy_def split: option.splits)
  have u: "[0..<length (cs @ [c])] = [0..<length cs] @ [length cs]" by simp
  show ?case
    unfolding mapAccum_snoc snoc.IH fst_conv snd_conv step u map_append m by simp
qed

subsection \<open>The second pass on the function responses of the conversation\<close>

definition responseStep ::
  "(string \<Rightarrow> string list) \<Rightarrow> FunctionResponse \<Rightarrow> FunctionResponse \<times> (string \<Rightarrow> string list)" where
  "responseStep pending resp =
     (if falsy (responseId resp) \<and> responseName resp \<noteq> None
      then (let queue = pending (the (responseName resp))
            in if length queue > 0
               then (resp\<lparr>responseId := Some (hd queue)\<rparr>,
                     pending(the (responseName resp) := tl queue))
               else (resp, pending))
      else (resp, pending))"

lemma matchResponseId_response:
  "responseOf part = Some resp \<Longrightarrow>
     responseOf (fst (matchResponseId pending part)) = Some (fst (responseStep pending resp)) \<and>
     snd (matchResponseId pending part) = snd (responseStep pending resp)"
  by (cases part)
     (auto simp: responseOf_def matchResponseId_def responseStep_def Let_def split: option.splits)

lemma matchResponseId_noresponse:
  "responseOf part = None \<Longrightarrow> matchResponseId pending part = (part, pending)"
  by (cases part) (auto simp: responseOf_def matchResponseId_def split: option.splits)

lemma responses_mapAccum:
  "List.map_filter responseOf (fst (mapAccum matchResponseId pending ps)) =
     fst (mapAccum responseStep pending (List.map_filter responseOf ps))
   \<and> snd (mapAccum matchResponseId pending ps) =
     snd (mapAccum responseStep pending (List.map_filter responseOf ps))"
proof (induction ps arbitrary: pending)
  case Nil
  then show ?case by (simp add: List.map_filter_def)
next
  case (Cons p ps)
  show ?case
  proof (cases "responseOf p")
    case None
    with Cons.IH [of pending] show ?thesis
      by (simp add: map_filter_Cons matchResponseId_noresponse mapAccum_Cons)
  next
    case (Some resp)
    from matchResponseId_response [OF Some, of pending]
      Cons.IH [of "snd (responseStep pending resp)"] Some
    show ?thesis
      by (simp add: map_filter_Cons mapAccum_Cons)
  qed
qed

text \<open>
  The closed form of the second pass. A response wants an id from the queue of \<open>name\<close>
  when it has no id and its name is the string \<open>name\<close>; \<open>popsBefore pre name\<close> counts
  such responses among the earlier responses \<open>pre\<close>.
\<close>

definition wants :: "string \<Rightarrow> FunctionResponse \<Rightarrow> bool" where
  "wants name r = (falsy (responseId r) \<and> responseName r = Some name)"

definition popsBefore :: "FunctionResponse list \<Rightarrow> string \<Rightarrow> nat" where
  "popsBefore pre name = length (filter (wants name) pre)"

definition idMatched ::
  "(string \<Rightarrow> string list) \<Rightarrow> FunctionResponse list \<Rightarrow> FunctionResponse \<Rightarrow> string option" where
  "idMatched queues pre r =
     (case responseName r of
        None \<Rightarrow> responseId r
      | Some name \<Rightarrow>
          if falsy (responseId r) \<and> popsBefore pre name < length (queues name)
          then Some (queues name ! popsBefore pre name)
          else responseId r)"

lemma popsBefore_snoc:
  "popsBefore (rs @ [r]) name = (if wants name r then popsBefore rs name + 1 else popsBefore rs name)"
  by (simp add: popsBefore_def)

lemma responseStep_closed:
  "mapAccum responseStep queues rs =
     (map (\<lambda>i. (rs ! i)\<lparr>responseId := idMatched queues (take i rs) (rs ! i)\<rparr>) [0..<length rs],
      (\<lambda>name. drop (popsBefore rs name) (queues name)))"
proof (induction rs rule: rev_induct)
  case Nil
  then show ?case by (simp add: popsBefore_def)
next
  case (snoc r rs)
  have m: "map (\<lambda>i. ((rs @ [r]) ! i)\<lparr>responseId := idMatched queues (take i (rs @ [r])) ((rs @ [r]) ! i)\<rparr>) [0..<length rs]
         = map (\<lambda>i. (rs ! i)\<lparr>responseId := idMatched queues (take i rs) (rs ! i)\<rparr>) [0..<length rs]"
    by (rule map_cong) (simp_all add: nth_append)
  have step: "responseStep (\<lambda>name. drop (popsBefore rs name) (queues name)) r =
      (r\<lparr>responseId := idMatched queues rs r\<rparr>,
       (\<lambda>name. drop (popsBefore (rs @ [r]) name) (queues name)))"
  proof (cases "falsy (responseId r) \<and> responseName r \<noteq> None")
    case False
    then show ?thesis
      by (auto simp: responseStep_def idMatched_def popsBefore_snoc wants_def fun_eq_iff
          split: option.splits)
  next
    case True
    then obtain n where n: "responseName r = Some n" and f: "falsy (responseId r)" by auto
    show ?thesis
    proof (cases "popsBefore rs n < length (queues n)")
      case True
      with n f show ?thesis
        by (auto simp: responseStep_def idMatched_def popsBefore_snoc wants_def fun_eq_iff
            Let_def hd_drop_conv_nth tl_drop drop_Suc)
    next
      case False
      with n f show ?thesis
        by (auto simp: responseStep_def idMatched_def popsBefore_snoc wants_def fun_eq_iff
            Let_def)
    qed
  qed
  have u: "[0..<length (rs @ [r])] = [0..<length rs] @ [length rs]" by simp
  show ?case
    unfolding mapAccum_snoc snoc.IH fst_conv snd_conv step u map_append m by simp
qed

subsection \<open>What the passes leave unchanged\<close>

definition withoutCallId :: "Part \<Rightarrow> Part" where
  "withoutCallId part =
     (case part of
        OpaquePart v \<Rightarrow> part
      | ObjPart p \<Rightarrow>
          (case functionCall p of
             None \<Rightarrow> part
           | Some c \<Rightarrow> ObjPart (p\<lparr>functionCall := Some (c\<lparr>callId := None\<rparr>)\<rparr>)))"

definition withoutResponseId :: "Part \<Rightarrow> Part" where
  "withoutResponseId part =
     (case part of
        OpaquePart v \<Rightarrow> part
      | ObjPart p \<Rightarrow>
          (case functionResponse p of
             None \<Rightarrow> part
           | Some r \<Rightarrow> ObjPart (p\<lparr>functionResponse := Some (r\<lparr>responseId := None\<rparr>)\<rparr>)))"

definition onParts :: "(Part \<Rightarrow> Part) \<Rightarrow> Content \<Rightarrow> Content" where
  "onParts g content =
     (case content of
        OpaqueContent v \<Rightarrow> content
      | ObjContent c \<Rightarrow>
          (case cparts c of
             None \<Rightarrow> content
           | Some ps \<Rightarrow> ObjContent (c\<lparr>cparts := Some (map g ps)\<rparr>)))"

lemma mapAccum_invariant:
  assumes "\<And>s x. g (fst (f s x)) = g x"
  shows "map g (fst (mapAccum f s xs)) = map g xs"
  by (induction xs arbitrary: s) (simp_all add: mapAccum_Cons assms)

lemma overParts_invariant:
  assumes "\<And>s x. g (fst (f s x)) = g x"
  shows "onParts g (fst (overParts f st content)) = onParts g content"
  by (auto simp: onParts_def overParts_def case_prod_beta mapAccum_invariant [of g f, OF assms]
      split: Content.splits option.splits)

lemma contents_invariant:
  assumes "\<And>s x. g (fst (f s x)) = g x"
  shows "map (onParts g) (fst (mapAccum (overParts f) st contents)) = map (onParts g) contents"
  by (rule mapAccum_invariant) (rule overParts_invariant [of g f, OF assms])

lemma assignCallId_withoutCallId: "withoutCallId (fst (assignCallId st part)) = withoutCallId part"
  by (cases part; cases st)
     (auto simp: withoutCallId_def assignCallId_def Let_def split: option.splits)

lemma assignCallId_responseOf: "responseOf (fst (assignCallId st part)) = responseOf part"
  by (cases part; cases st)
     (auto simp: responseOf_def assignCallId_def Let_def split: option.splits)

lemma matchResponseId_withoutResponseId:
  "withoutResponseId (fst (matchResponseId pending part)) = withoutResponseId part"
  by (cases part)
     (auto simp: withoutResponseId_def matchResponseId_def Let_def split: option.splits)

lemma matchResponseId_callOf: "callOf (fst (matchResponseId pending part)) = callOf part"
  by (cases part)
     (auto simp: callOf_def matchResponseId_def Let_def split: option.splits)

lemma map_filter_via_map:
  "List.map_filter f xs = map the (filter (\<lambda>y. y \<noteq> None) (map f xs))"
  by (induction xs) (auto simp: map_filter_Cons List.map_filter_def split: option.splits)

lemma firstPass_responses: "responsesOf (fst (firstPass contents)) = responsesOf contents"
proof -
  have "map responseOf (fst (mapAccum assignCallId (0, \<lambda>name. []) (allParts contents)))
        = map responseOf (allParts contents)"
    by (rule mapAccum_invariant) (rule assignCallId_responseOf)
  then show ?thesis
    by (simp add: responsesOf_def firstPass_def allParts_mapAccum map_filter_via_map)
qed

lemma secondPass_calls: "callsOf (fst (secondPass pending contents)) = callsOf contents"
proof -
  have "map callOf (fst (mapAccum matchResponseId pending (allParts contents)))
        = map callOf (allParts contents)"
    by (rule mapAccum_invariant) (rule matchResponseId_callOf)
  then show ?thesis
    by (simp add: callsOf_def secondPass_def allParts_mapAccum map_filter_via_map)
qed

lemma firstPass_closed:
  "callsOf (fst (firstPass contents)) =
     map (\<lambda>i. (callsOf contents ! i)\<lparr>callId :=
            Some (idAfter (take i (callsOf contents)) (callsOf contents ! i))\<rparr>)
       [0..<length (callsOf contents)]"
  "snd (firstPass contents) = (lacking (callsOf contents), queueFor (callsOf contents))"
  by (simp_all add: callsOf_def firstPass_def allParts_mapAccum calls_mapAccum callStep_closed)

lemma secondPass_closed:
  "responsesOf (fst (secondPass queues contents)) =
     map (\<lambda>i. (responsesOf contents ! i)\<lparr>responseId :=
            idMatched queues (take i (responsesOf contents)) (responsesOf contents ! i)\<rparr>)
       [0..<length (responsesOf contents)]"
  "snd (secondPass queues contents) =
     (\<lambda>name. drop (popsBefore (responsesOf contents) name) (queues name))"
  by (simp_all add: responsesOf_def secondPass_def allParts_mapAccum responses_mapAccum
      responseStep_closed)

lemma queueFor_named:
  assumes "\<forall>c \<in> set calls. callName c \<noteq> None"
  shows "queueFor calls name =
     map (\<lambda>i. idAfter (take i calls) (calls ! i))
       (filter (\<lambda>i. callName (calls ! i) = Some name) [0..<length calls])"
proof -
  have "filter (\<lambda>i. keyAfter (take i calls) (calls ! i) = name) [0..<length calls]
      = filter (\<lambda>i. callName (calls ! i) = Some name) [0..<length calls]"
  proof (intro filter_cong refl)
    fix i assume "i \<in> set [0..<length calls]"
    then have "calls ! i \<in> set calls" by simp
    with assms obtain n where "callName (calls ! i) = Some n" by blast
    then show "(keyAfter (take i calls) (calls ! i) = name) = (callName (calls ! i) = Some name)"
      by (simp add: keyAfter_def)
  qed
  then show ?thesis
    by (simp add: queueFor_def pushes_def filter_map comp_def)
qed

text \<open>
  Claim C5. On a conversation in Gemini wire format the first pass gives every
  \<^verbatim>\<open>functionCall\<close> without an id the id \<^verbatim>\<open>tool-call-N\<close>, where N counts the calls without
  an id from 1 in the order of the conversation (\<open>idAfter\<close>), keeps the ids that exist,
  and builds for each key the queue of the ids of the calls with that key, in order
  (\<open>queueFor\<close>); the key of a call is its function name (for a call whose name is not a
  string the code uses \<^verbatim>\<open>tool-\<close> followed by the counter). The second pass gives every
  \<^verbatim>\<open>functionResponse\<close> without an id and with a name the next element of the queue of
  its name: the element at the position that counts the earlier such responses of
  that name, and it leaves the id absent when the queue has no such element
  (\<open>idMatched\<close>). Neither pass changes anything else in the conversation.
\<close>

theorem tool_id_pairing_passes:
  "let calls = callsOf contents;
       responses = responsesOf contents;
       first = fst (firstPass contents);
       queues = snd (snd (firstPass contents));
       second = fst (secondPass queues first)
   in pairToolIds contents = second
      \<and> callsOf first =
          map (\<lambda>i. (calls ! i)\<lparr>callId := Some (idAfter (take i calls) (calls ! i))\<rparr>)
            [0..<length calls]
      \<and> queues = queueFor calls
      \<and> ((\<forall>c \<in> set calls. callName c \<noteq> None) \<longrightarrow>
            (\<forall>name. queues name =
               map (\<lambda>i. idAfter (take i calls) (calls ! i))
                 (filter (\<lambda>i. callName (calls ! i) = Some name) [0..<length calls])))
      \<and> responsesOf first = responses
      \<and> map (onParts withoutCallId) first = map (onParts withoutCallId) contents
      \<and> responsesOf second =
          map (\<lambda>i. (responses ! i)\<lparr>responseId :=
                 idMatched queues (take i responses) (responses ! i)\<rparr>)
            [0..<length responses]
      \<and> callsOf second = callsOf first
      \<and> map (onParts withoutResponseId) second = map (onParts withoutResponseId) first"
proof -
  have a: "pairToolIds contents =
           fst (secondPass (snd (snd (firstPass contents))) (fst (firstPass contents)))"
    by (simp add: pairToolIds_def case_prod_beta)
  have b: "map (onParts withoutCallId) (fst (firstPass contents)) = map (onParts withoutCallId) contents"
    unfolding firstPass_def by (rule contents_invariant) (rule assignCallId_withoutCallId)
  have c: "map (onParts withoutResponseId)
             (fst (secondPass (snd (snd (firstPass contents))) (fst (firstPass contents))))
         = map (onParts withoutResponseId) (fst (firstPass contents))"
    unfolding secondPass_def by (rule contents_invariant) (rule matchResponseId_withoutResponseId)
  have q: "snd (snd (firstPass contents)) = queueFor (callsOf contents)"
    by (simp add: firstPass_closed)
  have n: "(\<forall>c \<in> set (callsOf contents). callName c \<noteq> None) \<longrightarrow>
            (\<forall>name. queueFor (callsOf contents) name =
               map (\<lambda>i. idAfter (take i (callsOf contents)) (callsOf contents ! i))
                 (filter (\<lambda>i. callName (callsOf contents ! i) = Some name)
                    [0..<length (callsOf contents)]))"
    using queueFor_named [of "callsOf contents"] by blast
  show ?thesis
    unfolding Let_def
    using a b c n
    by (simp only: q firstPass_closed(1) secondPass_closed(1) secondPass_calls
        firstPass_responses simp_thms)
qed

definition readFileCall :: "string option \<Rightarrow> Part" where
  "readFileCall i =
     ObjPart \<lparr>partText = None, thinking = None, thought = False, partType = None,
       thoughtSignature = None, signature = None,
       functionCall = Some \<lparr>callId = i, callName = Some ''read_file'', callArgs = ''{}''\<rparr>,
       functionResponse = None, tool_use = False, toolUse = False, otherFields = ''''\<rparr>"

definition readFileResponse :: "string option \<Rightarrow> Part" where
  "readFileResponse i =
     ObjPart \<lparr>partText = None, thinking = None, thought = False, partType = None,
       thoughtSignature = None, signature = None, functionCall = None,
       functionResponse = Some \<lparr>responseId = i, responseName = Some ''read_file'', responseBody = ''ok''\<rparr>,
       tool_use = False, toolUse = False, otherFields = ''''\<rparr>"

definition turn :: "string \<Rightarrow> Part list \<Rightarrow> Content" where
  "turn r ps = ObjContent \<lparr>role = Some r, cparts = Some ps, otherContentFields = ''''\<rparr>"

definition exampleConversation :: "Content list" where
  "exampleConversation =
     [turn ''model'' [readFileCall None],
      turn ''model'' [readFileCall (Some ''b'')],
      turn ''user'' [readFileResponse None, readFileResponse None, readFileResponse None]]"

lemma string_of_nat_1: "string_of_nat (Suc 0) = ''1''"
  by (simp add: string_of_nat.simps [of "Suc 0"])

theorem tool_id_pairing_passes_witness:
  "pairToolIds exampleConversation =
     [turn ''model'' [readFileCall (Some ''tool-call-1'')],
      turn ''model'' [readFileCall (Some ''b'')],
      turn ''user'' [readFileResponse (Some ''tool-call-1''), readFileResponse (Some ''b''),
                    readFileResponse None]]
   \<and> snd (snd (firstPass exampleConversation)) ''read_file'' = [''tool-call-1'', ''b'']
   \<and> map callName (callsOf exampleConversation) = [Some ''read_file'', Some ''read_file'']"
proof -
  have cn: "map callName (callsOf exampleConversation) = [Some ''read_file'', Some ''read_file'']"
    by (simp add: callsOf_def allParts_def partsOf_def List.map_filter_def callOf_def
        exampleConversation_def turn_def readFileCall_def readFileResponse_def)
  have fp: "firstPass exampleConversation =
      ([turn ''model'' [readFileCall (Some ''tool-call-1'')],
        turn ''model'' [readFileCall (Some ''b'')],
        turn ''user'' [readFileResponse None, readFileResponse None, readFileResponse None]],
       (1, (\<lambda>name. [])(''read_file'' := [''tool-call-1'', ''b''])))"
    by (simp add: firstPass_def exampleConversation_def turn_def readFileCall_def
        readFileResponse_def overParts_def assignCallId_def mapAccum_Cons falsy_def Let_def
        string_of_nat_1)
  have sp: "fst (secondPass ((\<lambda>name. [])(''read_file'' := [''tool-call-1'', ''b'']))
        [turn ''model'' [readFileCall (Some ''tool-call-1'')],
         turn ''model'' [readFileCall (Some ''b'')],
         turn ''user'' [readFileResponse None, readFileResponse None, readFileResponse None]])
      = [turn ''model'' [readFileCall (Some ''tool-call-1'')],
         turn ''model'' [readFileCall (Some ''b'')],
         turn ''user'' [readFileResponse (Some ''tool-call-1''), readFileResponse (Some ''b''),
                       readFileResponse None]]"
    by (simp add: secondPass_def turn_def readFileCall_def
        readFileResponse_def overParts_def matchResponseId_def mapAccum_Cons falsy_def Let_def)
  from tool_id_pairing_passes [of exampleConversation]
  have "pairToolIds exampleConversation =
        fst (secondPass (snd (snd (firstPass exampleConversation))) (fst (firstPass exampleConversation)))"
    unfolding Let_def by (elim conjE)
  with cn show ?thesis by (simp add: fp sp)
qed

subsection \<open>Conversations in Anthropic messages format, and the request payload\<close>

text \<open>
  A block of a message carries \<^verbatim>\<open>type\<close>, \<^verbatim>\<open>thinking\<close>, \<^verbatim>\<open>text\<close> and \<^verbatim>\<open>signature\<close>;
  \<open>blockText\<close> is the field \<^verbatim>\<open>text\<close> when it is a string and \<open>blockTextText\<close> is
  \<^verbatim>\<open>text.text\<close> when \<^verbatim>\<open>text\<close> is an object whose \<^verbatim>\<open>text\<close> is a string. The
  \<^verbatim>\<open>content\<close> of a message is a string, an array of blocks, or something else.
\<close>

record BlockFields =
  blockType :: "string option"
  blockThinking :: "string option"
  blockText :: "string option"
  blockTextText :: "string option"
  blockSignature :: "string option"
  otherBlockFields :: string

datatype Block = OpaqueBlock string | ObjBlock BlockFields

datatype MessageContent = ContentString string | ContentBlocks "Block list" | ContentOther

record MessageFields =
  msgRole :: "string option"
  msgContent :: MessageContent
  otherMessageFields :: string

datatype Message = OpaqueMessage string | ObjMessage MessageFields

text \<open>
  The value of \<^verbatim>\<open>systemInstruction\<close>, \<^verbatim>\<open>system\<close> or \<^verbatim>\<open>system_instruction\<close>: a string, an
  array of blocks, an object (with the value of its \<^verbatim>\<open>parts\<close>, \<open>None\<close> when it has
  none), or another value.
\<close>

datatype SystemValue =
    SystemString string
  | SystemBlocks "Block list"
  | SystemObject "SystemValue option"
  | SystemOther

record RequestMetadata =
  meta_conversation_id :: "string option"
  meta_conversationId :: "string option"
  meta_thread_id :: "string option"
  meta_threadId :: "string option"

record RequestPayload =
  conversationId :: "string option"
  conversation_id :: "string option"
  thread_id :: "string option"
  threadId :: "string option"
  chat_id :: "string option"
  chatId :: "string option"
  sessionId :: "string option"
  session_id :: "string option"
  metadata :: "RequestMetadata option"
  systemInstruction :: "SystemValue option"
  system :: "SystemValue option"
  system_instruction :: "SystemValue option"
  messages :: "Message list option"
  contents :: "Content list option"

subsection \<open>The signature session key\<close>

text \<open>
  \<^verbatim>\<open>crypto.createHash("sha256").update(seed, "utf8").digest("hex")\<close> is a function of the
  Node library; the model takes it as the parameter \<open>sha256hex\<close>.
\<close>

definition nonBlank :: "string option \<Rightarrow> bool" where
  "nonBlank v = (case v of None \<Rightarrow> False | Some s \<Rightarrow> trim s \<noteq> '''')"

definition buildSignatureSessionKey ::
  "string \<Rightarrow> string option \<Rightarrow> string option \<Rightarrow> string option \<Rightarrow> string" where
  "buildSignatureSessionKey sid model conversationKey projectKey =
     (let modelKey = (if nonBlank model then toLowerCase (the model) else ''unknown'');
          projectPart = (if nonBlank projectKey then trim (the projectKey) else ''default'');
          conversationPart = (if nonBlank conversationKey then trim (the conversationKey)
                              else ''default'')
      in sid @ '':'' @ modelKey @ '':'' @ projectPart @ '':'' @ conversationPart)"

definition hashConversationSeed :: "(string \<Rightarrow> string) \<Rightarrow> string \<Rightarrow> string" where
  "hashConversationSeed sha256hex seed = take 16 (sha256hex seed)"

fun firstBlockText :: "Block list \<Rightarrow> string" where
  "firstBlockText [] = ''''"
| "firstBlockText (OpaqueBlock v # rest) = firstBlockText rest"
| "firstBlockText (ObjBlock b # rest) =
     (case blockText b of
        Some t \<Rightarrow> t
      | None \<Rightarrow> (case blockTextText b of Some t \<Rightarrow> t | None \<Rightarrow> firstBlockText rest))"

text \<open>\<^verbatim>\<open>extractTextFromContent\<close> on the three kinds of value it is called with.\<close>

definition extractTextFromMessageContent :: "MessageContent \<Rightarrow> string" where
  "extractTextFromMessageContent content =
     (case content of
        ContentString s \<Rightarrow> s
      | ContentBlocks blocks \<Rightarrow> firstBlockText blocks
      | ContentOther \<Rightarrow> '''')"

definition extractTextFromSystemValue :: "SystemValue \<Rightarrow> string" where
  "extractTextFromSystemValue content =
     (case content of
        SystemString s \<Rightarrow> s
      | SystemBlocks blocks \<Rightarrow> firstBlockText blocks
      | _ \<Rightarrow> '''')"

text \<open>A part read as a block: only its \<^verbatim>\<open>text\<close> field matters, a string or absent.\<close>

definition partAsBlock :: "Part \<Rightarrow> Block" where
  "partAsBlock part =
     (case part of
        OpaquePart v \<Rightarrow> OpaqueBlock v
      | ObjPart p \<Rightarrow>
          ObjBlock \<lparr>blockType = partType p, blockThinking = thinking p, blockText = partText p,
                    blockTextText = None, blockSignature = signature p,
                    otherBlockFields = otherFields p\<rparr>)"

definition extractTextFromParts :: "Part list \<Rightarrow> string" where
  "extractTextFromParts ps = firstBlockText (map partAsBlock ps)"

text \<open>\<^verbatim>\<open>[a, b].filter(Boolean).join("|")\<close> on two strings.\<close>

definition joinNonEmpty :: "string \<Rightarrow> string \<Rightarrow> string" where
  "joinNonEmpty a b =
     (if a = '''' then b else if b = '''' then a else a @ ''|'' @ b)"

definition messageRole :: "Message \<Rightarrow> string option" where
  "messageRole m = (case m of OpaqueMessage v \<Rightarrow> None | ObjMessage f \<Rightarrow> msgRole f)"

definition messageText :: "Message \<Rightarrow> string" where
  "messageText m =
     (case m of
        OpaqueMessage v \<Rightarrow> ''''
      | ObjMessage f \<Rightarrow> extractTextFromMessageContent (msgContent f))"

definition extractConversationSeedFromMessages :: "Message list \<Rightarrow> string" where
  "extractConversationSeedFromMessages msgs =
     (let systemMessage = List.find (\<lambda>m. messageRole m = Some ''system'') msgs;
          users = filter (\<lambda>m. messageRole m = Some ''user'') msgs;
          systemText = (case systemMessage of None \<Rightarrow> '''' | Some m \<Rightarrow> messageText m);
          userText = (if users = [] then '''' else messageText (hd users));
          fallbackUserText =
            (if userText = '''' \<and> users \<noteq> [] then messageText (last users) else '''')
      in joinNonEmpty systemText (if userText \<noteq> '''' then userText else fallbackUserText))"

definition contentRole :: "Content \<Rightarrow> string option" where
  "contentRole c = (case c of OpaqueContent v \<Rightarrow> None | ObjContent f \<Rightarrow> role f)"

definition contentPartsText :: "Content \<Rightarrow> string" where
  "contentPartsText c =
     (case c of
        OpaqueContent v \<Rightarrow> ''''
      | ObjContent f \<Rightarrow> (case cparts f of None \<Rightarrow> '''' | Some ps \<Rightarrow> extractTextFromParts ps))"

definition extractConversationSeedFromContents :: "Content list \<Rightarrow> string" where
  "extractConversationSeedFromContents cs =
     (let users = filter (\<lambda>c. contentRole c = Some ''user'') cs;
          primaryUser = (if users = [] then '''' else contentPartsText (hd users))
      in if primaryUser \<noteq> '''' then primaryUser
         else if users \<noteq> [] then contentPartsText (last users)
         else '''')"

definition idCandidates :: "RequestPayload \<Rightarrow> string option list" where
  "idCandidates payload =
     [conversationId payload, conversation_id payload, thread_id payload, threadId payload,
      chat_id payload, chatId payload, sessionId payload, session_id payload,
      (case metadata payload of None \<Rightarrow> None | Some m \<Rightarrow> meta_conversation_id m),
      (case metadata payload of None \<Rightarrow> None | Some m \<Rightarrow> meta_conversationId m),
      (case metadata payload of None \<Rightarrow> None | Some m \<Rightarrow> meta_thread_id m),
      (case metadata payload of None \<Rightarrow> None | Some m \<Rightarrow> meta_threadId m)]"

fun firstCandidate :: "string option list \<Rightarrow> string option" where
  "firstCandidate [] = None"
| "firstCandidate (candidate # rest) =
     (if nonBlank candidate then Some (trim (the candidate)) else firstCandidate rest)"

definition systemSeedValue :: "RequestPayload \<Rightarrow> SystemValue option" where
  "systemSeedValue payload =
     nullish (case systemInstruction payload of
                Some (SystemObject partsValue) \<Rightarrow> partsValue
              | _ \<Rightarrow> None)
       (nullish (systemInstruction payload)
          (nullish (system payload) (system_instruction payload)))"

definition resolveConversationKey :: "(string \<Rightarrow> string) \<Rightarrow> RequestPayload \<Rightarrow> string option" where
  "resolveConversationKey sha256hex payload =
     (case firstCandidate (idCandidates payload) of
        Some key \<Rightarrow> Some key
      | None \<Rightarrow>
          (let systemSeed = (case systemSeedValue payload of
                               None \<Rightarrow> ''''
                             | Some v \<Rightarrow> extractTextFromSystemValue v);
               messageSeed = (case messages payload of
                                Some msgs \<Rightarrow> extractConversationSeedFromMessages msgs
                              | None \<Rightarrow>
                                  (case contents payload of
                                     Some cs \<Rightarrow> extractConversationSeedFromContents cs
                                   | None \<Rightarrow> ''''));
               seed = joinNonEmpty systemSeed messageSeed
           in if seed = '''' then None
              else Some (''seed-'' @ hashConversationSeed sha256hex seed)))"

definition resolveProjectKey :: "string option \<Rightarrow> string option \<Rightarrow> string option" where
  "resolveProjectKey candidate fallback =
     (if nonBlank candidate then Some (trim (the candidate))
      else if nonBlank fallback then Some (trim (the fallback))
      else None)"

text \<open>
  The key that \<^verbatim>\<open>prepareAntigravityRequest\<close> computes for a body that is not yet wrapped:
  \<^verbatim>\<open>PLUGIN_SESSION_ID\<close>, the effective model, the project id it was called with, and the
  conversation key of the payload.
\<close>

definition signatureSessionKey ::
  "(string \<Rightarrow> string) \<Rightarrow> string \<Rightarrow> string \<Rightarrow> string option \<Rightarrow> RequestPayload \<Rightarrow> string" where
  "signatureSessionKey sha256hex pluginSessionId effectiveModel projectIdArg requestPayload =
     (let conversationKey = resolveConversationKey sha256hex requestPayload
      in buildSignatureSessionKey pluginSessionId (Some effectiveModel) conversationKey
           (resolveProjectKey projectIdArg None))"

lemma trim_fixed:
  assumes "s \<noteq> []" and "\<not> isWhiteSpace (hd s)" and "\<not> isWhiteSpace (last s)"
  shows "trim s = s"
proof -
  from assms(1,2) have a: "dropWhile isWhiteSpace s = s"
    by (cases s) simp_all
  from assms(1,3) have b: "dropWhile isWhiteSpace (rev s) = rev s"
    by (cases "rev s") (simp_all add: last_rev [symmetric] hd_rev)
  show ?thesis by (simp add: trim_def a b)
qed

lemma trim_prefix: "\<exists>zs. dropWhile isWhiteSpace s = trim s @ zs"
proof -
  let ?a = "dropWhile isWhiteSpace s"
  have "rev ?a = takeWhile isWhiteSpace (rev ?a) @ dropWhile isWhiteSpace (rev ?a)" by simp
  then have "rev (rev ?a) = rev (takeWhile isWhiteSpace (rev ?a) @ dropWhile isWhiteSpace (rev ?a))"
    by simp
  then have "?a = rev (dropWhile isWhiteSpace (rev ?a)) @ rev (takeWhile isWhiteSpace (rev ?a))"
    by (simp only: rev_rev_ident rev_append)
  then show ?thesis unfolding trim_def by blast
qed

lemma trim_idem [simp]: "trim (trim s) = trim s"
proof (cases "trim s = []")
  case True
  have "trim [] = []" by (simp add: trim_def)
  with True show ?thesis by simp
next
  case False
  obtain zs where z: "dropWhile isWhiteSpace s = trim s @ zs" using trim_prefix by blast
  with False have ne: "dropWhile isWhiteSpace s \<noteq> []" by auto
  then have "\<not> isWhiteSpace (hd (dropWhile isWhiteSpace s))" by (rule hd_dropWhile)
  with z False have h: "\<not> isWhiteSpace (hd (trim s))" by (metis hd_append2)
  have r: "rev (trim s) = dropWhile isWhiteSpace (rev (dropWhile isWhiteSpace s))"
    by (simp add: trim_def)
  from False have "rev (trim s) \<noteq> []" by simp
  then have "\<not> isWhiteSpace (hd (rev (trim s)))" unfolding r by (rule hd_dropWhile)
  with False have l: "\<not> isWhiteSpace (last (trim s))" by (simp add: hd_rev)
  from False h l show ?thesis by (rule trim_fixed)
qed









definition textPart :: "string \<Rightarrow> Part" where
  "textPart t =
     ObjPart \<lparr>partText = Some t, thinking = None, thought = False, partType = None,
       thoughtSignature = None, signature = None, functionCall = None,
       functionResponse = None, tool_use = False, toolUse = False, otherFields = ''''\<rparr>"






subsection \<open>Thinking-block discipline\<close>

definition MIN_SIGNATURE_LENGTH :: nat where
  "MIN_SIGNATURE_LENGTH = 50"

text \<open>
  The module state \<^verbatim>\<open>lastSignedThinkingBySessionKey\<close> maps a session key to the last
  thinking text and signature seen in a response. \<^verbatim>\<open>getCachedSignature\<close> (cache.js) is a
  parameter: the signature cached for a session key and a thinking text, if any.
\<close>

record LastThinking =
  lastText :: string
  lastSignature :: string

type_synonym LastSignedThinking = "string \<Rightarrow> LastThinking option"

type_synonym CachedSignatures = "string \<Rightarrow> string \<Rightarrow> string option"

definition longEnough :: "string option \<Rightarrow> bool" where
  "longEnough v = (case v of None \<Rightarrow> False | Some s \<Rightarrow> length s \<ge> MIN_SIGNATURE_LENGTH)"

definition isGeminiToolUsePart :: "Part \<Rightarrow> bool" where
  "isGeminiToolUsePart part =
     (case part of
        OpaquePart v \<Rightarrow> False
      | ObjPart p \<Rightarrow> functionCall p \<noteq> None \<or> tool_use p \<or> toolUse p)"

definition isGeminiThinkingPart :: "Part \<Rightarrow> bool" where
  "isGeminiThinkingPart part =
     (case part of
        OpaquePart v \<Rightarrow> False
      | ObjPart p \<Rightarrow>
          thought p \<or> partType p = Some ''thinking'' \<or> partType p = Some ''reasoning'')"

definition ensureThoughtSignature :: "CachedSignatures \<Rightarrow> Part \<Rightarrow> string \<Rightarrow> Part" where
  "ensureThoughtSignature getCachedSignature part sid =
     (case part of
        OpaquePart v \<Rightarrow> part
      | ObjPart p \<Rightarrow>
          (let txt = (case partText p of
                        Some t \<Rightarrow> t
                      | None \<Rightarrow> (case thinking p of Some t \<Rightarrow> t | None \<Rightarrow> ''''))
           in if txt = '''' then part
              else if thought p
              then (if falsy (thoughtSignature p)
                    then (let cached = getCachedSignature sid txt
                          in if \<not> falsy cached then ObjPart (p\<lparr>thoughtSignature := cached\<rparr>)
                             else part)
                    else part)
              else if (partType p = Some ''thinking'' \<or> partType p = Some ''reasoning'')
                      \<and> falsy (signature p)
              then (let cached = getCachedSignature sid txt
                    in if \<not> falsy cached then ObjPart (p\<lparr>signature := cached\<rparr>) else part)
              else part))"

definition hasSignedThinkingPart :: "Part \<Rightarrow> bool" where
  "hasSignedThinkingPart part =
     (case part of
        OpaquePart v \<Rightarrow> False
      | ObjPart p \<Rightarrow>
          if thought p then longEnough (thoughtSignature p)
          else if partType p = Some ''thinking'' \<or> partType p = Some ''reasoning''
          then longEnough (signature p)
          else False)"

definition injectedPart :: "LastThinking \<Rightarrow> Part" where
  "injectedPart lastThinking =
     ObjPart \<lparr>partText = Some (lastText lastThinking), thinking = None, thought = True,
       partType = None, thoughtSignature = Some (lastSignature lastThinking), signature = None,
       functionCall = None, functionResponse = None, tool_use = False, toolUse = False,
       otherFields = ''''\<rparr>"

definition ensureThinkingBeforeToolUseInContent ::
  "CachedSignatures \<Rightarrow> LastSignedThinking \<Rightarrow> string \<Rightarrow> Content \<Rightarrow> Content" where
  "ensureThinkingBeforeToolUseInContent getCachedSignature lastSigned sessionKey content =
     (case content of
        OpaqueContent v \<Rightarrow> content
      | ObjContent c \<Rightarrow>
          (case cparts c of
             None \<Rightarrow> content
           | Some ps \<Rightarrow>
               if role c \<noteq> Some ''model'' \<and> role c \<noteq> Some ''assistant'' then content
               else if \<not> list_ex isGeminiToolUsePart ps then content
               else
                 (let thinkingParts =
                        map (\<lambda>p. ensureThoughtSignature getCachedSignature p sessionKey)
                          (filter isGeminiThinkingPart ps);
                      otherParts = filter (\<lambda>p. \<not> isGeminiThinkingPart p) ps
                  in if list_ex hasSignedThinkingPart thinkingParts
                     then ObjContent (c\<lparr>cparts := Some (thinkingParts @ otherParts)\<rparr>)
                     else (case lastSigned sessionKey of
                             None \<Rightarrow> content
                           | Some lastThinking \<Rightarrow>
                               ObjContent (c\<lparr>cparts := Some (injectedPart lastThinking # otherParts)\<rparr>)))))"

definition ensureThinkingBeforeToolUseInContents ::
  "CachedSignatures \<Rightarrow> LastSignedThinking \<Rightarrow> Content list \<Rightarrow> string \<Rightarrow> Content list" where
  "ensureThinkingBeforeToolUseInContents getCachedSignature lastSigned cs sessionKey =
     map (ensureThinkingBeforeToolUseInContent getCachedSignature lastSigned sessionKey) cs"

definition isThinkingBlock :: "Block \<Rightarrow> bool" where
  "isThinkingBlock block =
     (case block of
        OpaqueBlock v \<Rightarrow> False
      | ObjBlock b \<Rightarrow> blockType b = Some ''thinking'' \<or> blockType b = Some ''redacted_thinking'')"

definition isToolBlock :: "Block \<Rightarrow> bool" where
  "isToolBlock block =
     (case block of
        OpaqueBlock v \<Rightarrow> False
      | ObjBlock b \<Rightarrow> blockType b = Some ''tool_use'' \<or> blockType b = Some ''tool_result'')"

definition hasSignedBlock :: "Block \<Rightarrow> bool" where
  "hasSignedBlock block =
     (case block of OpaqueBlock v \<Rightarrow> False | ObjBlock b \<Rightarrow> longEnough (blockSignature b))"

definition ensureMessageThinkingSignature :: "CachedSignatures \<Rightarrow> Block \<Rightarrow> string \<Rightarrow> Block" where
  "ensureMessageThinkingSignature getCachedSignature block sid =
     (case block of
        OpaqueBlock v \<Rightarrow> block
      | ObjBlock b \<Rightarrow>
          if blockType b \<noteq> Some ''thinking'' \<and> blockType b \<noteq> Some ''redacted_thinking''
          then block
          else if longEnough (blockSignature b) then block
          else
            (let txt = (case blockThinking b of
                          Some t \<Rightarrow> t
                        | None \<Rightarrow> (case blockText b of Some t \<Rightarrow> t | None \<Rightarrow> ''''))
             in if txt = '''' then block
                else (let cached = getCachedSignature sid txt
                      in if \<not> falsy cached then ObjBlock (b\<lparr>blockSignature := cached\<rparr>)
                         else block)))"

definition injectedBlock :: "LastThinking \<Rightarrow> Block" where
  "injectedBlock lastThinking =
     ObjBlock \<lparr>blockType = Some ''thinking'', blockThinking = Some (lastText lastThinking),
       blockText = None, blockTextText = None,
       blockSignature = Some (lastSignature lastThinking), otherBlockFields = ''''\<rparr>"

definition ensureThinkingBeforeToolUseInMessage ::
  "CachedSignatures \<Rightarrow> LastSignedThinking \<Rightarrow> string \<Rightarrow> Message \<Rightarrow> Message" where
  "ensureThinkingBeforeToolUseInMessage getCachedSignature lastSigned sessionKey message =
     (case message of
        OpaqueMessage v \<Rightarrow> message
      | ObjMessage m \<Rightarrow>
          (case msgContent m of
             ContentBlocks blocks \<Rightarrow>
               if msgRole m \<noteq> Some ''assistant'' then message
               else if \<not> list_ex isToolBlock blocks then message
               else
                 (let thinkingBlocks =
                        map (\<lambda>b. ensureMessageThinkingSignature getCachedSignature b sessionKey)
                          (filter isThinkingBlock blocks);
                      otherBlocks = filter (\<lambda>b. \<not> isThinkingBlock b) blocks
                  in if list_ex hasSignedBlock thinkingBlocks
                     then ObjMessage (m\<lparr>msgContent := ContentBlocks (thinkingBlocks @ otherBlocks)\<rparr>)
                     else (case lastSigned sessionKey of
                             None \<Rightarrow> message
                           | Some lastThinking \<Rightarrow>
                               ObjMessage (m\<lparr>msgContent :=
                                  ContentBlocks (injectedBlock lastThinking # otherBlocks)\<rparr>)))
           | _ \<Rightarrow> message))"

definition ensureThinkingBeforeToolUseInMessages ::
  "CachedSignatures \<Rightarrow> LastSignedThinking \<Rightarrow> Message list \<Rightarrow> string \<Rightarrow> Message list" where
  "ensureThinkingBeforeToolUseInMessages getCachedSignature lastSigned msgs sessionKey =
     map (ensureThinkingBeforeToolUseInMessage getCachedSignature lastSigned sessionKey) msgs"

definition blocksOf :: "Message \<Rightarrow> Block list" where
  "blocksOf message =
     (case message of
        OpaqueMessage v \<Rightarrow> []
      | ObjMessage m \<Rightarrow> (case msgContent m of ContentBlocks blocks \<Rightarrow> blocks | _ \<Rightarrow> []))"

definition hasToolUseInContents :: "Content list \<Rightarrow> bool" where
  "hasToolUseInContents cs = list_ex (\<lambda>content. list_ex isGeminiToolUsePart (partsOf content)) cs"

definition hasSignedThinkingInContents :: "Content list \<Rightarrow> bool" where
  "hasSignedThinkingInContents cs =
     list_ex (\<lambda>content. list_ex hasSignedThinkingPart (partsOf content)) cs"

definition hasToolUseInMessages :: "Message list \<Rightarrow> bool" where
  "hasToolUseInMessages msgs = list_ex (\<lambda>message. list_ex isToolBlock (blocksOf message)) msgs"

definition hasSignedThinkingInMessages :: "Message list \<Rightarrow> bool" where
  "hasSignedThinkingInMessages msgs =
     list_ex (\<lambda>message. list_ex (\<lambda>b. isThinkingBlock b \<and> hasSignedBlock b) (blocksOf message)) msgs"

definition onBlocks :: "(Block list \<Rightarrow> Block list) \<Rightarrow> Message \<Rightarrow> Message" where
  "onBlocks g message =
     (case message of
        OpaqueMessage v \<Rightarrow> message
      | ObjMessage m \<Rightarrow>
          (case msgContent m of
             ContentBlocks blocks \<Rightarrow> ObjMessage (m\<lparr>msgContent := ContentBlocks (g blocks)\<rparr>)
           | _ \<Rightarrow> message))"

definition onPartList :: "(Part list \<Rightarrow> Part list) \<Rightarrow> Content \<Rightarrow> Content" where
  "onPartList g content =
     (case content of
        OpaqueContent v \<Rightarrow> content
      | ObjContent c \<Rightarrow>
          (case cparts c of
             None \<Rightarrow> content
           | Some ps \<Rightarrow> ObjContent (c\<lparr>cparts := Some (g ps)\<rparr>)))"

text \<open>
  \<^verbatim>\<open>stripInjectedDebugFromRequestPayload\<close> drops the parts and blocks whose text starts
  with \<^verbatim>\<open>DEBUG_MESSAGE_PREFIX\<close>, a constant of debug.js that is a parameter here.
\<close>

definition isInjectedDebugPart :: "string \<Rightarrow> Part \<Rightarrow> bool" where
  "isInjectedDebugPart debugPrefix part =
     (case part of
        OpaquePart v \<Rightarrow> False
      | ObjPart p \<Rightarrow>
          (let txt = nullish (partText p) (thinking p)
           in \<not> falsy txt \<and> startsWith (the txt) debugPrefix))"

definition isInjectedDebugBlock :: "string \<Rightarrow> Block \<Rightarrow> bool" where
  "isInjectedDebugBlock debugPrefix block =
     (case block of
        OpaqueBlock v \<Rightarrow> False
      | ObjBlock b \<Rightarrow>
          (let txt = nullish (blockText b) (blockThinking b)
           in \<not> falsy txt \<and> startsWith (the txt) debugPrefix))"

definition stripInjectedDebugFromRequestPayload :: "string \<Rightarrow> RequestPayload \<Rightarrow> RequestPayload" where
  "stripInjectedDebugFromRequestPayload debugPrefix payload =
     payload\<lparr>contents := map_option (map (onPartList (filter (\<lambda>p. \<not> isInjectedDebugPart debugPrefix p))))
                            (contents payload),
             messages := map_option (map (onBlocks (filter (\<lambda>b. \<not> isInjectedDebugBlock debugPrefix b))))
                            (messages payload)\<rparr>"

subsection \<open>The filter, the injection and the warm-up check of \<^verbatim>\<open>prepareAntigravityRequest\<close>\<close>

text \<open>
  \<^verbatim>\<open>deepFilterThinkingBlocks\<close> is imported from request-helpers.js, which is not among the
  sources: it is the parameter \<open>deepFilter\<close>, called with the payload, the session key
  and \<open>getCachedSignature\<close>; the payload it leaves is the one the next steps read.
\<close>

type_synonym ThinkingFilter = "RequestPayload \<Rightarrow> string \<Rightarrow> CachedSignatures \<Rightarrow> RequestPayload"

definition applyThinkingDiscipline ::
  "ThinkingFilter \<Rightarrow> CachedSignatures \<Rightarrow> LastSignedThinking \<Rightarrow> string \<Rightarrow> string \<Rightarrow>
   RequestPayload \<Rightarrow> RequestPayload" where
  "applyThinkingDiscipline deepFilter getCachedSignature lastSigned effectiveModel sessionKey req =
     (if isClaudeModel effectiveModel
      then
        (let r1 = deepFilter req sessionKey getCachedSignature;
             r2 = (if isClaudeThinkingModel effectiveModel \<and> contents r1 \<noteq> None
                   then r1\<lparr>contents := Some (ensureThinkingBeforeToolUseInContents
                                   getCachedSignature lastSigned (the (contents r1)) sessionKey)\<rparr>
                   else r1);
             r3 = (if isClaudeThinkingModel effectiveModel \<and> messages r2 \<noteq> None
                   then r2\<lparr>messages := Some (ensureThinkingBeforeToolUseInMessages
                                   getCachedSignature lastSigned (the (messages r2)) sessionKey)\<rparr>
                   else r2)
         in r3)
      else req)"

definition requestHasToolUse :: "RequestPayload \<Rightarrow> bool" where
  "requestHasToolUse req =
     ((contents req \<noteq> None \<and> hasToolUseInContents (the (contents req)))
      \<or> (messages req \<noteq> None \<and> hasToolUseInMessages (the (messages req))))"

definition requestHasSignedThinking :: "RequestPayload \<Rightarrow> bool" where
  "requestHasSignedThinking req =
     ((contents req \<noteq> None \<and> hasSignedThinkingInContents (the (contents req)))
      \<or> (messages req \<noteq> None \<and> hasSignedThinkingInMessages (the (messages req))))"

text \<open>
  A body that is not yet wrapped: the session key is computed from the payload, then the
  payload is filtered, thinking is injected, and the warm-up flag is set.
\<close>

definition prepareThinking ::
  "ThinkingFilter \<Rightarrow> (string \<Rightarrow> string) \<Rightarrow> string \<Rightarrow> CachedSignatures \<Rightarrow>
   LastSignedThinking \<Rightarrow> string \<Rightarrow> string option \<Rightarrow> RequestPayload \<Rightarrow>
   RequestPayload \<times> bool" where
  "prepareThinking deepFilter sha256hex pluginSessionId getCachedSignature lastSigned
      effectiveModel projectIdArg requestPayload =
     (let sessionKey = signatureSessionKey sha256hex pluginSessionId effectiveModel projectIdArg
                         requestPayload;
          prepared = applyThinkingDiscipline deepFilter getCachedSignature lastSigned
                       effectiveModel sessionKey requestPayload;
          needsSignedThinkingWarmup =
            (if isClaudeModel effectiveModel \<and> isClaudeThinkingModel effectiveModel
             then (let hasToolUse = requestHasToolUse prepared;
                       hasSignedThinking = requestHasSignedThinking prepared;
                       hasCachedThinking = (lastSigned sessionKey \<noteq> None)
                   in hasToolUse \<and> \<not> hasSignedThinking \<and> \<not> hasCachedThinking)
             else False)
      in (prepared, needsSignedThinkingWarmup))"

text \<open>
  A body that is already wrapped: \<open>requestObjects\<close> are its \<^verbatim>\<open>request\<close> and, when
  present, the \<^verbatim>\<open>request\<close> nested in it; the project is the \<^verbatim>\<open>project\<close> of the body.
\<close>

fun resolveConversationKeyFromRequests ::
  "(string \<Rightarrow> string) \<Rightarrow> RequestPayload list \<Rightarrow> string option" where
  "resolveConversationKeyFromRequests sha256hex [] = None"
| "resolveConversationKeyFromRequests sha256hex (req # rest) =
     (case resolveConversationKey sha256hex req of
        Some key \<Rightarrow> if key \<noteq> '''' then Some key
                    else resolveConversationKeyFromRequests sha256hex rest
      | None \<Rightarrow> resolveConversationKeyFromRequests sha256hex rest)"

definition wrappedSessionKey ::
  "(string \<Rightarrow> string) \<Rightarrow> string \<Rightarrow> string \<Rightarrow> string \<Rightarrow> RequestPayload list \<Rightarrow> string" where
  "wrappedSessionKey sha256hex pluginSessionId effectiveModel project requestObjects =
     (let conversationKey = resolveConversationKeyFromRequests sha256hex requestObjects
      in buildSignatureSessionKey pluginSessionId (Some effectiveModel) conversationKey
           (resolveProjectKey (Some project) None))"

definition prepareWrappedThinking ::
  "ThinkingFilter \<Rightarrow> (string \<Rightarrow> string) \<Rightarrow> string \<Rightarrow> string \<Rightarrow> CachedSignatures \<Rightarrow>
   LastSignedThinking \<Rightarrow> string \<Rightarrow> string \<Rightarrow> RequestPayload list \<Rightarrow>
   RequestPayload list \<times> bool" where
  "prepareWrappedThinking deepFilter sha256hex pluginSessionId debugPrefix getCachedSignature
      lastSigned effectiveModel project requestObjects =
     (let sessionKey = wrappedSessionKey sha256hex pluginSessionId effectiveModel project
                         requestObjects;
          prepared =
            map (\<lambda>req. applyThinkingDiscipline deepFilter getCachedSignature lastSigned
                          effectiveModel sessionKey
                          (stripInjectedDebugFromRequestPayload debugPrefix
                             (req\<lparr>sessionId := Some sessionKey\<rparr>)))
              requestObjects;
          needsSignedThinkingWarmup =
            (if isClaudeThinkingModel effectiveModel \<and> requestObjects \<noteq> []
             then (let hasToolUse = list_ex requestHasToolUse prepared;
                       hasSignedThinking = list_ex requestHasSignedThinking prepared;
                       hasCachedThinking = (lastSigned sessionKey \<noteq> None)
                   in hasToolUse \<and> \<not> hasSignedThinking \<and> \<not> hasCachedThinking)
             else False)
      in (prepared, needsSignedThinkingWarmup))"

subsection \<open>Harvesting the last signed thinking from a response\<close>

text \<open>
  \<^verbatim>\<open>cacheThinkingSignatures\<close> reads a response: the parts of each candidate (\<open>None\<close> for
  a candidate without \<^verbatim>\<open>content.parts\<close>) and the blocks of an Anthropic-style
  \<^verbatim>\<open>content\<close> array. Its state here is the thought buffer (candidate position to
  collected thinking text) and \<^verbatim>\<open>lastSignedThinkingBySessionKey\<close>; its calls of
  \<^verbatim>\<open>cacheSignature\<close> (cache.js) write the signature cache, which this development reads
  only through \<open>getCachedSignature\<close>.
\<close>

record ResponseBody =
  candidates :: "Part list option list option"
  responseContent :: "Block list option"

type_synonym ThoughtBuffer = "nat \<Rightarrow> string option"

definition orEmpty :: "string option \<Rightarrow> string" where
  "orEmpty v = (case v of None \<Rightarrow> '''' | Some s \<Rightarrow> s)"

definition firstTruthy :: "string option \<Rightarrow> string option \<Rightarrow> string" where
  "firstTruthy a b = (if \<not> falsy a then the a else if \<not> falsy b then the b else '''')"

definition cachePart ::
  "string \<Rightarrow> nat \<Rightarrow> Part \<Rightarrow> ThoughtBuffer \<times> LastSignedThinking \<Rightarrow>
   ThoughtBuffer \<times> LastSignedThinking" where
  "cachePart sessionKey position part st =
     (case part of
        OpaquePart v \<Rightarrow> st
      | ObjPart p \<Rightarrow>
          (let thoughtBuffer =
                 (if thought p \<or> partType p = Some ''thinking''
                  then (let txt = firstTruthy (partText p) (thinking p)
                        in if txt \<noteq> ''''
                           then (fst st)(position \<mapsto> orEmpty (fst st position) @ txt)
                           else fst st)
                  else fst st)
           in if \<not> falsy (thoughtSignature p)
              then (let fullText = orEmpty (thoughtBuffer position)
                    in if fullText \<noteq> ''''
                       then (thoughtBuffer,
                             (snd st)(sessionKey \<mapsto>
                                \<lparr>lastText = fullText, lastSignature = the (thoughtSignature p)\<rparr>))
                       else (thoughtBuffer, snd st))
              else (thoughtBuffer, snd st)))"

definition cacheBlock ::
  "string \<Rightarrow> Block \<Rightarrow> string \<times> LastSignedThinking \<Rightarrow> string \<times> LastSignedThinking" where
  "cacheBlock sessionKey block st =
     (case block of
        OpaqueBlock v \<Rightarrow> st
      | ObjBlock b \<Rightarrow>
          (let thinkingText =
                 (if blockType b = Some ''thinking''
                  then fst st @ firstTruthy (blockThinking b) (blockText b)
                  else fst st)
           in if \<not> falsy (blockSignature b) \<and> thinkingText \<noteq> ''''
              then (thinkingText,
                    (snd st)(sessionKey \<mapsto>
                       \<lparr>lastText = thinkingText, lastSignature = the (blockSignature b)\<rparr>))
              else (thinkingText, snd st)))"

definition cacheThinkingSignatures ::
  "ResponseBody \<Rightarrow> string \<Rightarrow> ThoughtBuffer \<times> LastSignedThinking \<Rightarrow>
   ThoughtBuffer \<times> LastSignedThinking" where
  "cacheThinkingSignatures response sessionKey st =
     (let st1 = (case candidates response of
                   None \<Rightarrow> st
                 | Some cands \<Rightarrow>
                     fold (\<lambda>(position, candidate) acc.
                             (case candidate of
                                None \<Rightarrow> acc
                              | Some ps \<Rightarrow> fold (cachePart sessionKey position) ps acc))
                       (enumerate 0 cands) st);
          lastSigned = (case responseContent response of
                          None \<Rightarrow> snd st1
                        | Some blocks \<Rightarrow> snd (fold (cacheBlock sessionKey) blocks ('''', snd st1)))
      in (fst st1, lastSigned))"

subsection \<open>The filter of unsigned thinking\<close>

text \<open>
  Modelled from the spec: the filter of the parts of one content, for
  \<^verbatim>\<open>deepFilterThinkingBlocks\<close> below. The look-up in the cache is the one of
  \<^verbatim>\<open>ensureThoughtSignature\<close>.
\<close>

definition filterThinkingParts :: "CachedSignatures \<Rightarrow> string \<Rightarrow> Part list \<Rightarrow> Part list" where
  "filterThinkingParts getCachedSignature sid ps =
     filter (\<lambda>p. hasSignedThinkingPart p \<or> \<not> isGeminiThinkingPart p)
       (map (\<lambda>p. ensureThoughtSignature getCachedSignature p sid) ps)"

text \<open>
  Modelled from the spec: the filter of the blocks of one message, for
  \<^verbatim>\<open>deepFilterThinkingBlocks\<close> below. The look-up in the cache is the one of
  \<^verbatim>\<open>ensureMessageThinkingSignature\<close>.
\<close>

definition filterThinkingBlocks :: "CachedSignatures \<Rightarrow> string \<Rightarrow> Block list \<Rightarrow> Block list" where
  "filterThinkingBlocks getCachedSignature sid blocks =
     filter (\<lambda>b. hasSignedBlock b \<or> \<not> isThinkingBlock b)
       (map (\<lambda>b. ensureMessageThinkingSignature getCachedSignature b sid) blocks)"

text \<open>
  Modelled from the spec: \<^verbatim>\<open>deepFilterThinkingBlocks\<close>, whose file request-helpers.js is not
  among the sources (only its declaration is). Section 4.I: ``for each thinking block
  lacking a signature, look up (sessionKey, verbatim text) in the cache and attach'' and
  ``strip any thinking block that is still unsigned''; the glossary: a signed thinking
  block carries a \<^verbatim>\<open>thoughtSignature\<close>/\<^verbatim>\<open>signature\<close> of at least 50 characters. The walk
  covers the parts of \<^verbatim>\<open>contents\<close> and the blocks of \<^verbatim>\<open>messages\<close>.
\<close>

definition deepFilterThinkingBlocks :: ThinkingFilter where
  "deepFilterThinkingBlocks payload sid getCachedSignature =
     payload\<lparr>contents := map_option (map (onPartList (filterThinkingParts getCachedSignature sid)))
                            (contents payload),
             messages := map_option (map (onBlocks (filterThinkingBlocks getCachedSignature sid)))
                            (messages payload)\<rparr>"

text \<open>
  What the later steps need of the filter: in the payload it leaves, every thinking part
  and every thinking block is signed with at least 50 characters.
\<close>

definition thinkingAllSigned :: "RequestPayload \<Rightarrow> bool" where
  "thinkingAllSigned req =
     (list_all (\<lambda>c. list_all (\<lambda>p. isGeminiThinkingPart p \<longrightarrow> hasSignedThinkingPart p) (partsOf c))
        (case contents req of None \<Rightarrow> [] | Some cs \<Rightarrow> cs)
      \<and> list_all (\<lambda>m. list_all (\<lambda>b. isThinkingBlock b \<longrightarrow> hasSignedBlock b) (blocksOf m))
          (case messages req of None \<Rightarrow> [] | Some ms \<Rightarrow> ms))"

subsection \<open>What the filter and the injection preserve\<close>

lemma claude_thinking_is_claude: "isClaudeThinkingModel m \<Longrightarrow> isClaudeModel m"
  by (simp add: isClaudeThinkingModel_def isClaudeModel_def Let_def)

lemma ensureThoughtSignature_signed:
  "hasSignedThinkingPart p \<Longrightarrow> ensureThoughtSignature g p k = p"
  by (cases p)
     (auto simp: ensureThoughtSignature_def hasSignedThinkingPart_def Let_def longEnough_def
        falsy_def MIN_SIGNATURE_LENGTH_def split: option.splits if_splits)

lemma ensureMessageThinkingSignature_signed:
  "hasSignedBlock b \<Longrightarrow> ensureMessageThinkingSignature g b k = b"
  by (cases b) (simp_all add: ensureMessageThinkingSignature_def hasSignedBlock_def)

lemma filterThinkingParts_signed:
  "p \<in> set (filterThinkingParts g k ps) \<Longrightarrow> isGeminiThinkingPart p \<Longrightarrow> hasSignedThinkingPart p"
  by (auto simp: filterThinkingParts_def)

lemma filterThinkingBlocks_signed:
  "b \<in> set (filterThinkingBlocks g k blocks) \<Longrightarrow> isThinkingBlock b \<Longrightarrow> hasSignedBlock b"
  by (auto simp: filterThinkingBlocks_def)

lemma partsOf_onPartList: "f [] = [] \<Longrightarrow> partsOf (onPartList f c) = f (partsOf c)"
  by (simp add: partsOf_def onPartList_def split: Content.splits option.splits)

lemma blocksOf_onBlocks: "f [] = [] \<Longrightarrow> blocksOf (onBlocks f m) = f (blocksOf m)"
  by (simp add: blocksOf_def onBlocks_def split: Message.splits MessageContent.splits)

lemma thinkingAllSigned_parts:
  assumes "thinkingAllSigned req" "contents req = Some cs" "c \<in> set cs"
    "p \<in> set (partsOf c)" "isGeminiThinkingPart p"
  shows "hasSignedThinkingPart p"
  using assms by (auto simp: thinkingAllSigned_def list_all_iff)

lemma thinkingAllSigned_blocks:
  assumes "thinkingAllSigned req" "messages req = Some ms" "m \<in> set ms"
    "b \<in> set (blocksOf m)" "isThinkingBlock b"
  shows "hasSignedBlock b"
  using assms by (auto simp: thinkingAllSigned_def list_all_iff)

text \<open>The filter as the specification describes it leaves signed thinking only.\<close>

lemma deepFilterThinkingBlocks_signed: "thinkingAllSigned (deepFilterThinkingBlocks req k g)"
proof -
  have parts: "hasSignedThinkingPart p"
    if "c \<in> set cs" "contents req = Some cs"
      "p \<in> set (partsOf (onPartList (filterThinkingParts g k) c))" "isGeminiThinkingPart p"
    for cs c p
  proof -
    have "partsOf (onPartList (filterThinkingParts g k) c) = filterThinkingParts g k (partsOf c)"
      by (simp add: partsOf_onPartList filterThinkingParts_def)
    then show ?thesis using that filterThinkingParts_signed by metis
  qed
  have blocks: "hasSignedBlock b"
    if "m \<in> set ms" "messages req = Some ms"
      "b \<in> set (blocksOf (onBlocks (filterThinkingBlocks g k) m))" "isThinkingBlock b"
    for ms m b
  proof -
    have "blocksOf (onBlocks (filterThinkingBlocks g k) m) = filterThinkingBlocks g k (blocksOf m)"
      by (simp add: blocksOf_onBlocks filterThinkingBlocks_def)
    then show ?thesis using that filterThinkingBlocks_signed by metis
  qed
  show ?thesis
    by (cases "contents req"; cases "messages req")
       (auto simp: thinkingAllSigned_def deepFilterThinkingBlocks_def list_all_iff
          intro: parts blocks)
qed

lemma split_thinking_same:
  assumes "\<And>x. x \<in> set xs \<Longrightarrow> T x \<Longrightarrow> f x = x"
  shows "set (map f (filter T xs) @ filter (\<lambda>x. \<not> T x) xs) = set xs"
proof -
  have "map f (filter T xs) = filter T xs"
    by (rule map_idI) (simp add: assms)
  then show ?thesis by auto
qed

lemma ensureContent_parts:
  assumes none: "ls k = None"
    and signed: "\<And>p. p \<in> set (partsOf c) \<Longrightarrow> isGeminiThinkingPart p \<Longrightarrow> hasSignedThinkingPart p"
  shows "set (partsOf (ensureThinkingBeforeToolUseInContent g ls k c)) = set (partsOf c)"
proof (cases c)
  case (OpaqueContent v)
  then show ?thesis by (simp add: ensureThinkingBeforeToolUseInContent_def)
next
  case (ObjContent fields)
  show ?thesis
  proof (cases "cparts fields")
    case None
    then show ?thesis using ObjContent by (simp add: ensureThinkingBeforeToolUseInContent_def)
  next
    case (Some ps)
    have ps: "partsOf c = ps" using ObjContent Some by (simp add: partsOf_def)
    have same: "set (map (\<lambda>p. ensureThoughtSignature g p k) (filter isGeminiThinkingPart ps)
                  @ filter (\<lambda>p. \<not> isGeminiThinkingPart p) ps) = set ps"
      by (rule split_thinking_same) (use signed ps in \<open>simp add: ensureThoughtSignature_signed\<close>)
    show ?thesis
      using ObjContent Some none same
      by (simp add: ensureThinkingBeforeToolUseInContent_def partsOf_def Let_def)
  qed
qed

lemma ensureMessage_blocks:
  assumes none: "ls k = None"
    and signed: "\<And>b. b \<in> set (blocksOf m) \<Longrightarrow> isThinkingBlock b \<Longrightarrow> hasSignedBlock b"
  shows "set (blocksOf (ensureThinkingBeforeToolUseInMessage g ls k m)) = set (blocksOf m)"
proof (cases m)
  case (OpaqueMessage v)
  then show ?thesis by (simp add: ensureThinkingBeforeToolUseInMessage_def)
next
  case (ObjMessage fields)
  show ?thesis
  proof (cases "msgContent fields")
    case (ContentBlocks blocks)
    have bs: "blocksOf m = blocks" using ObjMessage ContentBlocks by (simp add: blocksOf_def)
    have same: "set (map (\<lambda>b. ensureMessageThinkingSignature g b k) (filter isThinkingBlock blocks)
                  @ filter (\<lambda>b. \<not> isThinkingBlock b) blocks) = set blocks"
      by (rule split_thinking_same) (use signed bs in \<open>simp add: ensureMessageThinkingSignature_signed\<close>)
    show ?thesis
      using ObjMessage ContentBlocks none same
      by (simp add: ensureThinkingBeforeToolUseInMessage_def blocksOf_def Let_def)
  qed (use ObjMessage in \<open>simp_all add: ensureThinkingBeforeToolUseInMessage_def\<close>)
qed

lemma discipline_contents:
  assumes "isClaudeThinkingModel m"
  shows "contents (applyThinkingDiscipline deepFilter g ls m k req) =
           map_option (map (ensureThinkingBeforeToolUseInContent g ls k))
             (contents (deepFilter req k g))"
  using assms claude_thinking_is_claude [OF assms(1)]
  by (cases "contents (deepFilter req k g)"; cases "messages (deepFilter req k g)")
     (simp_all add: applyThinkingDiscipline_def Let_def ensureThinkingBeforeToolUseInContents_def)

lemma discipline_messages:
  assumes "isClaudeThinkingModel m"
  shows "messages (applyThinkingDiscipline deepFilter g ls m k req) =
           map_option (map (ensureThinkingBeforeToolUseInMessage g ls k))
             (messages (deepFilter req k g))"
  using assms claude_thinking_is_claude [OF assms(1)]
  by (cases "contents (deepFilter req k g)"; cases "messages (deepFilter req k g)")
     (simp_all add: applyThinkingDiscipline_def Let_def ensureThinkingBeforeToolUseInMessages_def)

lemma discipline_keeps_checks:
  assumes ct: "isClaudeThinkingModel m" and none: "ls k = None"
    and filtered: "thinkingAllSigned (deepFilter req k g)"
  shows "requestHasToolUse (applyThinkingDiscipline deepFilter g ls m k req)
           = requestHasToolUse (deepFilter req k g)"
    and "requestHasSignedThinking (applyThinkingDiscipline deepFilter g ls m k req)
           = requestHasSignedThinking (deepFilter req k g)"
proof -
  let ?f = "deepFilter req k g"
  have cparts: "set (partsOf (ensureThinkingBeforeToolUseInContent g ls k c)) = set (partsOf c)"
    if "contents ?f = Some cs" "c \<in> set cs" for cs c
    by (rule ensureContent_parts [of ls k c g, OF none])
       (rule thinkingAllSigned_parts [OF filtered that])
  have mblocks: "set (blocksOf (ensureThinkingBeforeToolUseInMessage g ls k x)) = set (blocksOf x)"
    if "messages ?f = Some ms" "x \<in> set ms" for ms x
    by (rule ensureMessage_blocks [of ls k x g, OF none])
       (rule thinkingAllSigned_blocks [OF filtered that])
  show "requestHasToolUse (applyThinkingDiscipline deepFilter g ls m k req) = requestHasToolUse ?f"
    unfolding requestHasToolUse_def discipline_contents [where ls=ls and k=k, OF ct]
      discipline_messages [where ls=ls and k=k, OF ct]
    by (cases "contents ?f"; cases "messages ?f")
       (auto simp: hasToolUseInContents_def hasToolUseInMessages_def list_ex_iff cparts mblocks)
  show "requestHasSignedThinking (applyThinkingDiscipline deepFilter g ls m k req)
          = requestHasSignedThinking ?f"
    unfolding requestHasSignedThinking_def discipline_contents [where ls=ls and k=k, OF ct]
      discipline_messages [where ls=ls and k=k, OF ct]
    by (cases "contents ?f"; cases "messages ?f")
       (auto simp: hasSignedThinkingInContents_def hasSignedThinkingInMessages_def list_ex_iff
          cparts mblocks)
qed

subsection \<open>The warm-up flag\<close>

definition emptyPayload :: RequestPayload where
  "emptyPayload =
     \<lparr>conversationId = None, conversation_id = None, thread_id = None, threadId = None,
      chat_id = None, chatId = None, sessionId = None, session_id = None, metadata = None,
      systemInstruction = None, system = None, system_instruction = None, messages = None,
      contents = None\<rparr>"

definition toolResultConversation :: "Content list" where
  "toolResultConversation =
     [turn ''user'' [textPart ''read the file''],
      turn ''user'' [readFileResponse (Some ''a'')]]"

definition toolLoopConversation :: "Content list" where
  "toolLoopConversation =
     [turn ''user'' [textPart ''read the file''],
      turn ''model'' [readFileCall (Some ''a'')],
      turn ''user'' [readFileResponse (Some ''a'')]]"

definition toolResultPayload :: RequestPayload where
  "toolResultPayload = emptyPayload\<lparr>contents := Some toolResultConversation\<rparr>"

definition toolLoopPayload :: RequestPayload where
  "toolLoopPayload = emptyPayload\<lparr>contents := Some toolLoopConversation\<rparr>"

definition noCachedSignature :: CachedSignatures where
  "noCachedSignature = (\<lambda>sid txt. None)"

definition noLastThinking :: LastSignedThinking where
  "noLastThinking = (\<lambda>sessionKey. None)"

lemma flag_needs_no_cached_thinking:
  "ls (signatureSessionKey sha256hex pid m proj req) \<noteq> None \<Longrightarrow>
     \<not> snd (prepareThinking deepFilter sha256hex pid g ls m proj req)"
  by (simp add: prepareThinking_def Let_def)

lemma flag_unwrapped:
  assumes "thinkingAllSigned (deepFilter req (signatureSessionKey sha256hex pid m proj req) g)"
  shows "snd (prepareThinking deepFilter sha256hex pid g ls m proj req) =
     (isClaudeThinkingModel m
      \<and> requestHasToolUse (deepFilter req (signatureSessionKey sha256hex pid m proj req) g)
      \<and> \<not> requestHasSignedThinking
            (deepFilter req (signatureSessionKey sha256hex pid m proj req) g)
      \<and> ls (signatureSessionKey sha256hex pid m proj req) = None)"
proof (cases "isClaudeThinkingModel m \<and> ls (signatureSessionKey sha256hex pid m proj req) = None")
  case True
  then have ct: "isClaudeThinkingModel m"
    and none: "ls (signatureSessionKey sha256hex pid m proj req) = None" by simp_all
  show ?thesis
    using ct none claude_thinking_is_claude [OF ct]
      discipline_keeps_checks [where ls=ls and g=g and req=req and deepFilter=deepFilter,
        OF ct none assms]
    by (simp add: prepareThinking_def Let_def)
next
  case False
  then show ?thesis
    by (auto simp: prepareThinking_def Let_def)
qed

lemma flag_wrapped:
  assumes "list_all (\<lambda>req. thinkingAllSigned
             (deepFilter
                (stripInjectedDebugFromRequestPayload debugPrefix
                   (req\<lparr>sessionId := Some (wrappedSessionKey sha256hex pid m project reqs)\<rparr>))
                (wrappedSessionKey sha256hex pid m project reqs) g)) reqs"
  shows "snd (prepareWrappedThinking deepFilter sha256hex pid debugPrefix g ls m project reqs) =
     (isClaudeThinkingModel m \<and> reqs \<noteq> []
      \<and> list_ex (\<lambda>req. requestHasToolUse
            (deepFilter
               (stripInjectedDebugFromRequestPayload debugPrefix
                  (req\<lparr>sessionId := Some (wrappedSessionKey sha256hex pid m project reqs)\<rparr>))
               (wrappedSessionKey sha256hex pid m project reqs) g)) reqs
      \<and> \<not> list_ex (\<lambda>req. requestHasSignedThinking
            (deepFilter
               (stripInjectedDebugFromRequestPayload debugPrefix
                  (req\<lparr>sessionId := Some (wrappedSessionKey sha256hex pid m project reqs)\<rparr>))
               (wrappedSessionKey sha256hex pid m project reqs) g)) reqs
      \<and> ls (wrappedSessionKey sha256hex pid m project reqs) = None)"
proof (cases "isClaudeThinkingModel m \<and> ls (wrappedSessionKey sha256hex pid m project reqs) = None")
  case True
  then have ct: "isClaudeThinkingModel m"
    and none: "ls (wrappedSessionKey sha256hex pid m project reqs) = None" by simp_all
  have keep:
    "requestHasToolUse (applyThinkingDiscipline deepFilter g ls m
        (wrappedSessionKey sha256hex pid m project reqs)
        (stripInjectedDebugFromRequestPayload debugPrefix
           (req\<lparr>sessionId := Some (wrappedSessionKey sha256hex pid m project reqs)\<rparr>)))
     = requestHasToolUse (deepFilter
        (stripInjectedDebugFromRequestPayload debugPrefix
           (req\<lparr>sessionId := Some (wrappedSessionKey sha256hex pid m project reqs)\<rparr>))
        (wrappedSessionKey sha256hex pid m project reqs) g)"
    "requestHasSignedThinking (applyThinkingDiscipline deepFilter g ls m
        (wrappedSessionKey sha256hex pid m project reqs)
        (stripInjectedDebugFromRequestPayload debugPrefix
           (req\<lparr>sessionId := Some (wrappedSessionKey sha256hex pid m project reqs)\<rparr>)))
     = requestHasSignedThinking (deepFilter
        (stripInjectedDebugFromRequestPayload debugPrefix
           (req\<lparr>sessionId := Some (wrappedSessionKey sha256hex pid m project reqs)\<rparr>))
        (wrappedSessionKey sha256hex pid m project reqs) g)"
    if "req \<in> set reqs" for req
    using discipline_keeps_checks [where ls=ls and g=g and deepFilter=deepFilter, OF ct none]
      assms that
    by (simp_all add: list_all_iff)
  show ?thesis
    using ct none keep
    by (simp add: prepareWrappedThinking_def Let_def list_ex_iff)
next
  case False
  then show ?thesis
    by (auto simp: prepareWrappedThinking_def Let_def)
qed

lemma toolResultPayload_fields:
  "contents toolResultPayload = Some toolResultConversation" "messages toolResultPayload = None"
  by (simp_all add: toolResultPayload_def emptyPayload_def)

lemma toolLoopPayload_fields:
  "contents toolLoopPayload = Some toolLoopConversation" "messages toolLoopPayload = None"
  "contents (toolLoopPayload\<lparr>sessionId := v\<rparr>) = Some toolLoopConversation"
  "messages (toolLoopPayload\<lparr>sessionId := v\<rparr>) = None"
  by (simp_all add: toolLoopPayload_def emptyPayload_def)

lemma toolResultPayload_filtered:
  "deepFilterThinkingBlocks toolResultPayload k noCachedSignature = toolResultPayload"
  by (simp add: deepFilterThinkingBlocks_def toolResultPayload_def emptyPayload_def
        toolResultConversation_def turn_def onPartList_def filterThinkingParts_def textPart_def
        readFileResponse_def ensureThoughtSignature_def noCachedSignature_def
        isGeminiThinkingPart_def hasSignedThinkingPart_def falsy_def Let_def)

lemma toolLoopPayload_filtered:
  "deepFilterThinkingBlocks toolLoopPayload k noCachedSignature = toolLoopPayload"
  "deepFilterThinkingBlocks (toolLoopPayload\<lparr>sessionId := v\<rparr>) k noCachedSignature
     = toolLoopPayload\<lparr>sessionId := v\<rparr>"
  by (simp_all add: deepFilterThinkingBlocks_def toolLoopPayload_def emptyPayload_def
        toolLoopConversation_def turn_def onPartList_def filterThinkingParts_def textPart_def
        readFileResponse_def readFileCall_def ensureThoughtSignature_def noCachedSignature_def
        isGeminiThinkingPart_def hasSignedThinkingPart_def falsy_def Let_def)

lemma toolLoopPayload_stripped:
  "stripInjectedDebugFromRequestPayload ''[debug]'' (toolLoopPayload\<lparr>sessionId := v\<rparr>)
     = toolLoopPayload\<lparr>sessionId := v\<rparr>"
  by (simp add: stripInjectedDebugFromRequestPayload_def toolLoopPayload_def emptyPayload_def
        toolLoopConversation_def turn_def onPartList_def textPart_def readFileResponse_def
        readFileCall_def isInjectedDebugPart_def nullish_def falsy_def Let_def)

lemma toolResultConversation_checks:
  "\<not> hasToolUseInContents toolResultConversation"
  "\<not> hasSignedThinkingInContents toolResultConversation"
  "responsesOf toolResultConversation \<noteq> []"
  by (simp_all add: hasToolUseInContents_def hasSignedThinkingInContents_def responsesOf_def
        allParts_def toolResultConversation_def turn_def partsOf_def textPart_def
        readFileResponse_def isGeminiToolUsePart_def hasSignedThinkingPart_def responseOf_def
        List.map_filter_simps)

lemma toolLoopConversation_checks:
  "hasToolUseInContents toolLoopConversation"
  "\<not> hasSignedThinkingInContents toolLoopConversation"
  by (simp_all add: hasToolUseInContents_def hasSignedThinkingInContents_def
        toolLoopConversation_def turn_def partsOf_def textPart_def readFileResponse_def
        readFileCall_def isGeminiToolUsePart_def hasSignedThinkingPart_def)

lemma toolLoopPayload_signed:
  "thinkingAllSigned toolLoopPayload" "thinkingAllSigned (toolLoopPayload\<lparr>sessionId := v\<rparr>)"
  by (simp_all add: thinkingAllSigned_def toolLoopPayload_def emptyPayload_def
        toolLoopConversation_def turn_def partsOf_def textPart_def readFileResponse_def
        readFileCall_def isGeminiThinkingPart_def)

lemma gemini_is_not_claude_thinking: "\<not> isClaudeThinkingModel ''gemini-3-pro''"
  by (simp add: isClaudeThinkingModel_def toLowerCase_def lowerChar_def Let_def)

text \<open>
  Claim C10, as the code has it. Let the filter of unsigned thinking (the missing
  \<^verbatim>\<open>deepFilterThinkingBlocks\<close>) leave only thinking that is signed with at least 50
  characters. Then \<^verbatim>\<open>needsSignedThinkingWarmup\<close> is true exactly when the effective model
  is a Claude thinking model, the body left by the filter holds a tool-use part
  (\<^verbatim>\<open>functionCall\<close>, \<^verbatim>\<open>tool_use\<close> or \<^verbatim>\<open>toolUse\<close> in \<^verbatim>\<open>contents\<close>; a \<^verbatim>\<open>tool_use\<close> or
  \<^verbatim>\<open>tool_result\<close> block in \<^verbatim>\<open>messages\<close>) and no thinking signed with at least 50
  characters, and no last-signed-thinking entry is cached for the session key. For an
  already wrapped body the same holds over its request objects, after the injected debug
  parts are dropped, and the flag also needs at least one request object. In every other
  case the flag is false.
\<close>

theorem needsSignedThinkingWarmup_contract:
  assumes "thinkingAllSigned (deepFilter req (signatureSessionKey sha256hex pid m proj req) g)"
    and "list_all (\<lambda>r. thinkingAllSigned
             (deepFilter
                (stripInjectedDebugFromRequestPayload debugPrefix
                   (r\<lparr>sessionId := Some (wrappedSessionKey sha256hex pid m project reqs)\<rparr>))
                (wrappedSessionKey sha256hex pid m project reqs) g)) reqs"
  shows
    "snd (prepareThinking deepFilter sha256hex pid g ls m proj req) =
       (isClaudeThinkingModel m
        \<and> requestHasToolUse (deepFilter req (signatureSessionKey sha256hex pid m proj req) g)
        \<and> \<not> requestHasSignedThinking
              (deepFilter req (signatureSessionKey sha256hex pid m proj req) g)
        \<and> ls (signatureSessionKey sha256hex pid m proj req) = None)
     \<and> snd (prepareWrappedThinking deepFilter sha256hex pid debugPrefix g ls m project reqs) =
       (isClaudeThinkingModel m \<and> reqs \<noteq> []
        \<and> list_ex (\<lambda>r. requestHasToolUse
              (deepFilter
                 (stripInjectedDebugFromRequestPayload debugPrefix
                    (r\<lparr>sessionId := Some (wrappedSessionKey sha256hex pid m project reqs)\<rparr>))
                 (wrappedSessionKey sha256hex pid m project reqs) g)) reqs
        \<and> \<not> list_ex (\<lambda>r. requestHasSignedThinking
              (deepFilter
                 (stripInjectedDebugFromRequestPayload debugPrefix
                    (r\<lparr>sessionId := Some (wrappedSessionKey sha256hex pid m project reqs)\<rparr>))
                 (wrappedSessionKey sha256hex pid m project reqs) g)) reqs
        \<and> ls (wrappedSessionKey sha256hex pid m project reqs) = None)"
  using flag_unwrapped [of deepFilter req sha256hex pid m proj g ls, OF assms(1)]
    flag_wrapped [of deepFilter debugPrefix sha256hex pid m project reqs g ls, OF assms(2)]
  by (rule conjI)

text \<open>
  The claim as the specification words it (the flag is set when the conversation holds a
  tool-use or a tool-result part, no signed thinking and no cached last thinking) fails
  for a conversation in Gemini wire format whose only tool part is a
  \<^verbatim>\<open>functionResponse\<close>: \<^verbatim>\<open>hasToolUseInContents\<close> looks for \<^verbatim>\<open>functionCall\<close>, \<^verbatim>\<open>tool_use\<close>
  and \<^verbatim>\<open>toolUse\<close> only, so the flag stays false for a Claude thinking model although
  nothing is signed and nothing is cached. The filter has nothing to strip here.
\<close>

theorem warmup_flag_ignores_function_response:
  "\<forall>sha256hex.
     isClaudeThinkingModel ''claude-sonnet-4-5-thinking''
     \<and> contents toolResultPayload = Some toolResultConversation
     \<and> responsesOf toolResultConversation \<noteq> []
     \<and> \<not> hasSignedThinkingInContents toolResultConversation
     \<and> noLastThinking (signatureSessionKey sha256hex ''-uuid'' ''claude-sonnet-4-5-thinking'' None
            toolResultPayload) = None
     \<and> deepFilterThinkingBlocks toolResultPayload
          (signatureSessionKey sha256hex ''-uuid'' ''claude-sonnet-4-5-thinking'' None
             toolResultPayload) noCachedSignature = toolResultPayload
     \<and> \<not> snd (prepareThinking deepFilterThinkingBlocks sha256hex ''-uuid'' noCachedSignature
              noLastThinking ''claude-sonnet-4-5-thinking'' None toolResultPayload)"
  using toolResultConversation_checks sonnet_is_claude_thinking
  by (simp add: flag_unwrapped [where deepFilter=deepFilterThinkingBlocks,
          OF deepFilterThinkingBlocks_signed] toolResultPayload_filtered
        toolResultPayload_fields requestHasToolUse_def noLastThinking_def)

theorem needsSignedThinkingWarmup_contract_witness:
  "\<forall>sha256hex.
     thinkingAllSigned (deepFilterThinkingBlocks toolLoopPayload
        (signatureSessionKey sha256hex ''-uuid'' ''claude-sonnet-4-5-thinking'' None toolLoopPayload)
        noCachedSignature)
     \<and> list_all (\<lambda>r. thinkingAllSigned
           (deepFilterThinkingBlocks
              (stripInjectedDebugFromRequestPayload ''[debug]''
                 (r\<lparr>sessionId := Some (wrappedSessionKey sha256hex ''-uuid''
                        ''claude-sonnet-4-5-thinking'' ''proj'' [toolLoopPayload])\<rparr>))
              (wrappedSessionKey sha256hex ''-uuid'' ''claude-sonnet-4-5-thinking'' ''proj''
                 [toolLoopPayload])
              noCachedSignature)) [toolLoopPayload]
     \<and> snd (prepareThinking deepFilterThinkingBlocks sha256hex ''-uuid'' noCachedSignature
            noLastThinking ''claude-sonnet-4-5-thinking'' None toolLoopPayload)
     \<and> snd (prepareWrappedThinking deepFilterThinkingBlocks sha256hex ''-uuid'' ''[debug]''
            noCachedSignature noLastThinking ''claude-sonnet-4-5-thinking'' ''proj''
            [toolLoopPayload])"
proof
  fix sha256hex
  let ?key = "signatureSessionKey sha256hex ''-uuid'' ''claude-sonnet-4-5-thinking'' None
                toolLoopPayload"
  let ?wkey = "wrappedSessionKey sha256hex ''-uuid'' ''claude-sonnet-4-5-thinking'' ''proj''
                 [toolLoopPayload]"
  have h1: "thinkingAllSigned (deepFilterThinkingBlocks toolLoopPayload ?key noCachedSignature)"
    by (simp add: toolLoopPayload_filtered toolLoopPayload_signed)
  have h2: "list_all (\<lambda>r. thinkingAllSigned
           (deepFilterThinkingBlocks
              (stripInjectedDebugFromRequestPayload ''[debug]'' (r\<lparr>sessionId := Some ?wkey\<rparr>))
              ?wkey noCachedSignature)) [toolLoopPayload]"
    by (simp add: toolLoopPayload_stripped toolLoopPayload_filtered toolLoopPayload_signed)
  show "thinkingAllSigned (deepFilterThinkingBlocks toolLoopPayload ?key noCachedSignature)
     \<and> list_all (\<lambda>r. thinkingAllSigned
           (deepFilterThinkingBlocks
              (stripInjectedDebugFromRequestPayload ''[debug]'' (r\<lparr>sessionId := Some ?wkey\<rparr>))
              ?wkey noCachedSignature)) [toolLoopPayload]
     \<and> snd (prepareThinking deepFilterThinkingBlocks sha256hex ''-uuid'' noCachedSignature
            noLastThinking ''claude-sonnet-4-5-thinking'' None toolLoopPayload)
     \<and> snd (prepareWrappedThinking deepFilterThinkingBlocks sha256hex ''-uuid'' ''[debug]''
            noCachedSignature noLastThinking ''claude-sonnet-4-5-thinking'' ''proj''
            [toolLoopPayload])"
    using needsSignedThinkingWarmup_contract [of deepFilterThinkingBlocks toolLoopPayload
        sha256hex "''-uuid''" "''claude-sonnet-4-5-thinking''" None noCachedSignature
        "''[debug]''" "''proj''" "[toolLoopPayload]" noLastThinking, OF h1 h2]
      h1 h2 toolLoopConversation_checks sonnet_is_claude_thinking
    by (simp add: toolLoopPayload_filtered toolLoopPayload_stripped toolLoopPayload_fields
          requestHasToolUse_def requestHasSignedThinking_def noLastThinking_def)
qed

subsection \<open>Thinking that remains in a prepared Claude body\<close>

lemma ensureContent_thinking:
  assumes p: "p \<in> set (partsOf (ensureThinkingBeforeToolUseInContent g ls k c))"
    and t: "isGeminiThinkingPart p"
    and signed: "\<And>q. q \<in> set (partsOf c) \<Longrightarrow> isGeminiThinkingPart q \<Longrightarrow> hasSignedThinkingPart q"
  shows "hasSignedThinkingPart p \<or> (\<exists>lastThinking. ls k = Some lastThinking \<and> p = injectedPart lastThinking)"
proof (cases c)
  case (OpaqueContent v)
  then show ?thesis using p t signed by (simp add: ensureThinkingBeforeToolUseInContent_def)
next
  case (ObjContent fields)
  show ?thesis
  proof (cases "cparts fields")
    case None
    then show ?thesis using ObjContent p t signed
      by (simp add: ensureThinkingBeforeToolUseInContent_def)
  next
    case (Some ps)
    have ps: "partsOf c = ps" using ObjContent Some by (simp add: partsOf_def)
    have same: "map (\<lambda>p. ensureThoughtSignature g p k) (filter isGeminiThinkingPart ps)
                  = filter isGeminiThinkingPart ps"
      by (rule map_idI) (use signed ps in \<open>simp add: ensureThoughtSignature_signed\<close>)
    show ?thesis
      using ObjContent Some p t signed ps
      by (auto simp: ensureThinkingBeforeToolUseInContent_def partsOf_def Let_def same
            split: if_splits option.splits)
  qed
qed

text \<open>
  When the filter leaves signed thinking only, a thinking part of the prepared
  \<^verbatim>\<open>contents\<close> is signed with at least 50 characters or is the part injected from the
  last thinking of the session.
\<close>

lemma remaining_thinking_parts:
  assumes claude: "isClaudeModel m"
    and filtered: "thinkingAllSigned (deepFilter req k g)"
    and cs: "contents (applyThinkingDiscipline deepFilter g ls m k req) = Some cs"
    and c: "c \<in> set cs" and p: "p \<in> set (partsOf c)" and t: "isGeminiThinkingPart p"
  shows "hasSignedThinkingPart p
         \<or> (isClaudeThinkingModel m \<and> (\<exists>lastThinking. ls k = Some lastThinking \<and> p = injectedPart lastThinking))"
proof (cases "isClaudeThinkingModel m")
  case False
  then have "contents (applyThinkingDiscipline deepFilter g ls m k req)
               = contents (deepFilter req k g)"
    using claude by (simp add: applyThinkingDiscipline_def Let_def)
  then show ?thesis using cs c p t thinkingAllSigned_parts [OF filtered] by metis
next
  case True
  from cs c discipline_contents [of m deepFilter g ls k req, OF True] obtain cs0 c0 where
    cs0: "contents (deepFilter req k g) = Some cs0" and c0: "c0 \<in> set cs0"
    and cc: "c = ensureThinkingBeforeToolUseInContent g ls k c0"
    by auto
  have "hasSignedThinkingPart p \<or> (\<exists>lastThinking. ls k = Some lastThinking \<and> p = injectedPart lastThinking)"
    by (rule ensureContent_thinking [of p g ls k c0])
       (use p cc t in simp_all, rule thinkingAllSigned_parts [OF filtered cs0 c0])
  then show ?thesis using True by simp
qed

subsection \<open>A short signature harvested from a response\<close>

definition shortThought :: Part where
  "shortThought =
     ObjPart \<lparr>partText = Some ''plan'', thinking = None, thought = True, partType = None,
       thoughtSignature = Some ''short'', signature = None, functionCall = None,
       functionResponse = None, tool_use = False, toolUse = False, otherFields = ''''\<rparr>"

definition shortSignedResponse :: ResponseBody where
  "shortSignedResponse = \<lparr>candidates = Some [Some [shortThought]], responseContent = None\<rparr>"

definition harvested :: "string \<Rightarrow> LastSignedThinking" where
  "harvested sessionKey =
     snd (cacheThinkingSignatures shortSignedResponse sessionKey (\<lambda>position. None, noLastThinking))"

definition finishedToolConversation :: "Content list" where
  "finishedToolConversation =
     [turn ''user'' [textPart ''read the file''],
      turn ''model'' [readFileCall (Some ''a'')],
      turn ''user'' [readFileResponse (Some ''a'')],
      turn ''model'' [textPart ''done''],
      turn ''user'' [textPart ''thanks'']]"

definition finishedToolPayload :: RequestPayload where
  "finishedToolPayload = emptyPayload\<lparr>contents := Some finishedToolConversation\<rparr>"

lemma harvested_short:
  "harvested k = noLastThinking(k \<mapsto> \<lparr>lastText = ''plan'', lastSignature = ''short''\<rparr>)"
  by (simp add: harvested_def cacheThinkingSignatures_def shortSignedResponse_def
        shortThought_def cachePart_def firstTruthy_def orEmpty_def falsy_def Let_def
        enumerate_eq_zip)

lemma finishedToolPayload_filtered:
  "deepFilterThinkingBlocks finishedToolPayload k noCachedSignature = finishedToolPayload"
  by (simp add: deepFilterThinkingBlocks_def finishedToolPayload_def emptyPayload_def
        finishedToolConversation_def turn_def onPartList_def filterThinkingParts_def textPart_def
        readFileResponse_def readFileCall_def ensureThoughtSignature_def noCachedSignature_def
        isGeminiThinkingPart_def hasSignedThinkingPart_def falsy_def Let_def)

lemma finishedToolPayload_fields:
  "contents finishedToolPayload = Some finishedToolConversation"
  "messages finishedToolPayload = None"
  by (simp_all add: finishedToolPayload_def emptyPayload_def)

lemma finishedToolConversation_injected:
  "ensureThinkingBeforeToolUseInContents noCachedSignature
     (noLastThinking(k \<mapsto> \<lparr>lastText = ''plan'', lastSignature = ''short''\<rparr>))
     finishedToolConversation k
   = [turn ''user'' [textPart ''read the file''],
      turn ''model'' [shortThought, readFileCall (Some ''a'')],
      turn ''user'' [readFileResponse (Some ''a'')],
      turn ''model'' [textPart ''done''],
      turn ''user'' [textPart ''thanks'']]"
  by (simp add: ensureThinkingBeforeToolUseInContents_def
        ensureThinkingBeforeToolUseInContent_def finishedToolConversation_def turn_def
        textPart_def readFileCall_def readFileResponse_def shortThought_def injectedPart_def
        isGeminiToolUsePart_def isGeminiThinkingPart_def hasSignedThinkingPart_def Let_def)

text \<open>
  Claim C2, where the code departs from it. The claim: in a body prepared for a Claude
  model every thinking part that remains carries a signature of at least 50 characters.
  The filter runs first; \<^verbatim>\<open>ensureThinkingBeforeToolUseInContents\<close> runs after it and
  prepends the last thinking harvested for the session with whatever signature the
  response carried. After a response whose thought part is signed \<^verbatim>\<open>short\<close>
  (5 characters), and with a filter that leaves a body without thinking as it is, the
  body prepared for a Claude thinking model holds that thought in front of the
  \<^verbatim>\<open>functionCall\<close>: a thinking part that \<^verbatim>\<open>hasSignedThinkingPart\<close> rejects, sent without a
  warm-up since a last thinking is cached.
\<close>

theorem injected_thinking_keeps_short_signature:
  assumes "deepFilter finishedToolPayload
             (signatureSessionKey sha256hex ''-uuid'' ''claude-sonnet-4-5-thinking'' None
                finishedToolPayload)
             noCachedSignature = finishedToolPayload"
  shows
    "contents (fst (prepareThinking deepFilter sha256hex ''-uuid'' noCachedSignature
            (harvested (signatureSessionKey sha256hex ''-uuid'' ''claude-sonnet-4-5-thinking''
                          None finishedToolPayload))
            ''claude-sonnet-4-5-thinking'' None finishedToolPayload))
         = Some [turn ''user'' [textPart ''read the file''],
                 turn ''model'' [shortThought, readFileCall (Some ''a'')],
                 turn ''user'' [readFileResponse (Some ''a'')],
                 turn ''model'' [textPart ''done''],
                 turn ''user'' [textPart ''thanks'']]
     \<and> isGeminiThinkingPart shortThought
     \<and> \<not> hasSignedThinkingPart shortThought
     \<and> \<not> snd (prepareThinking deepFilter sha256hex ''-uuid'' noCachedSignature
            (harvested (signatureSessionKey sha256hex ''-uuid'' ''claude-sonnet-4-5-thinking''
                          None finishedToolPayload))
            ''claude-sonnet-4-5-thinking'' None finishedToolPayload)"
proof -
  have claude: "isClaudeModel ''claude-sonnet-4-5-thinking''"
    by (rule claude_thinking_is_claude [OF sonnet_is_claude_thinking])
  have thought: "isGeminiThinkingPart shortThought" "\<not> hasSignedThinkingPart shortThought"
    by (simp_all add: isGeminiThinkingPart_def hasSignedThinkingPart_def shortThought_def
          longEnough_def MIN_SIGNATURE_LENGTH_def)
  have flag: "\<not> snd (prepareThinking deepFilter sha256hex ''-uuid'' noCachedSignature
            (harvested (signatureSessionKey sha256hex ''-uuid'' ''claude-sonnet-4-5-thinking''
                          None finishedToolPayload))
            ''claude-sonnet-4-5-thinking'' None finishedToolPayload)"
    by (rule flag_needs_no_cached_thinking) (simp add: harvested_short)
  have body: "contents (fst (prepareThinking deepFilter sha256hex ''-uuid'' noCachedSignature
            (harvested (signatureSessionKey sha256hex ''-uuid'' ''claude-sonnet-4-5-thinking''
                          None finishedToolPayload))
            ''claude-sonnet-4-5-thinking'' None finishedToolPayload))
         = Some [turn ''user'' [textPart ''read the file''],
                 turn ''model'' [shortThought, readFileCall (Some ''a'')],
                 turn ''user'' [readFileResponse (Some ''a'')],
                 turn ''model'' [textPart ''done''],
                 turn ''user'' [textPart ''thanks'']]"
    using claude sonnet_is_claude_thinking assms
    by (simp add: prepareThinking_def applyThinkingDiscipline_def Let_def harvested_short
          finishedToolPayload_fields finishedToolConversation_injected)
  show ?thesis
    using thought flag body by simp
qed

theorem injected_thinking_keeps_short_signature_witness:
  "\<forall>sha256hex.
     deepFilterThinkingBlocks finishedToolPayload
       (signatureSessionKey sha256hex ''-uuid'' ''claude-sonnet-4-5-thinking'' None
          finishedToolPayload)
       noCachedSignature = finishedToolPayload
     \<and> contents (fst (prepareThinking deepFilterThinkingBlocks sha256hex ''-uuid''
            noCachedSignature
            (harvested (signatureSessionKey sha256hex ''-uuid'' ''claude-sonnet-4-5-thinking''
                          None finishedToolPayload))
            ''claude-sonnet-4-5-thinking'' None finishedToolPayload))
         = Some [turn ''user'' [textPart ''read the file''],
                 turn ''model'' [shortThought, readFileCall (Some ''a'')],
                 turn ''user'' [readFileResponse (Some ''a'')],
                 turn ''model'' [textPart ''done''],
                 turn ''user'' [textPart ''thanks'']]
     \<and> \<not> hasSignedThinkingPart shortThought
     \<and> \<not> snd (prepareThinking deepFilterThinkingBlocks sha256hex ''-uuid'' noCachedSignature
            (harvested (signatureSessionKey sha256hex ''-uuid'' ''claude-sonnet-4-5-thinking''
                          None finishedToolPayload))
            ''claude-sonnet-4-5-thinking'' None finishedToolPayload)"
  using injected_thinking_keeps_short_signature [of deepFilterThinkingBlocks,
      OF finishedToolPayload_filtered]
  by (simp add: finishedToolPayload_filtered)

end
